theory Spec2Isabelle
  imports Main "HOL-Library.Word" "HOL-Library.List_Lexorder" "HOL-Library.Char_ord"
begin

section \<open>VRRP instance management of openconfigd (config/vrrp.go)\<close>

text \<open>
  The Go file keeps a process-wide registry \<open>VrrpInstanceMap\<close> and talks to four
  collaborators that live outside of it: the process supervisor (package \<open>process\<close>),
  the local configuration CLI (\<open>ExecLine\<close>, \<open>Commit\<close>), the file system and the etcd
  store.  The model threads one record \<open>world\<close> through every function.  It holds the
  registry and the instances its pointers address, the supervisor's table of registered
  processes, the contents of the etcd store, the sequence of calls made to the
  collaborators (\<open>trace\<close>), and the outcomes of the fallible calls still to come
  (\<open>outcomes\<close>).  Output written with
  \<open>fmt.Println\<close> and \<open>log.Println\<close> is not part of the model.
\<close>

subsection \<open>Decimal formatting (\<open>%d\<close>, \<open>strconv.Itoa\<close>)\<close>

definition digit_char :: "nat \<Rightarrow> char" where
  "digit_char d = ''0123456789'' ! d"

fun string_of_nat :: "nat \<Rightarrow> string" where
  "string_of_nat n =
     (if n < 10 then [digit_char n]
      else string_of_nat (n div 10) @ [digit_char (n mod 10)])"

declare string_of_nat.simps [simp del]

definition string_of_int :: "int \<Rightarrow> string" where
  "string_of_int i =
     (if i < 0 then CHR ''-'' # string_of_nat (nat (- i)) else string_of_nat (nat i))"

subsection \<open>Data\<close>

text \<open>
  Modelled from the spec: the structs \<open>Vrrp\<close>, \<open>UnicastPeer\<close> and \<open>VrfsConfig\<close> are
  declared in another file of the package.  The fields are those of the spec's
  virtual-router definition (identifier, interface, priority, advertisement interval,
  preempt flag, role, virtual address, unicast peers) under the names this file reads
  them by, and the two fields \<open>Vrf\<close> and \<open>Name\<close> that \<open>VrrpServerExec\<close> assigns.
  \<open>Vrid\<close> is assigned to the \<open>uint8\<close> field \<open>VrId\<close> without conversion, so it is a
  \<open>uint8\<close>.  \<open>Priority\<close> and \<open>AdvertisementInterval\<close> are integers compared with
  \<open>0\<close> and printed with \<open>%d\<close>; their width is not visible here, so they are
  unbounded integers.
\<close>

record UnicastPeer =
  Address :: string

record Vrrp =
  Vrid :: "8 word"
  Interface :: string
  State :: string
  Priority :: int
  AdvertisementInterval :: int
  Preempt :: bool
  VirtualAddress :: string
  UnicastPeerList :: "UnicastPeer list"
  Vrf :: string
  Name :: string

text \<open>Of \<open>cfg *VrfsConfig\<close> only the field \<open>Vrrp\<close> is read.\<close>

record VrfsConfig =
  cfg_Vrrp :: "Vrrp list"

text \<open>
  Modelled from the spec: the process supervisor (package \<open>process\<close>), with the
  interface \<open>spawn\<close>, \<open>register\<close>, \<open>unregister\<close>.  A \<open>*process.Process\<close> is a handle,
  allocated by \<open>process.NewProcess\<close>; the supervisor's table maps the registered
  handles to the fields \<open>VrrpServerStart\<close> sets.
\<close>

type_synonym handle = nat

record Process =
  p_Name :: string
  p_Args :: "string list"
  p_Vrf :: string
  p_StartTimer :: nat
  p_KillPidFile :: string

text \<open>
  \<open>VrrpInstance\<close>.  A slot of the registry is a \<open>[]*VrrpInstance\<close>: an entry is the
  nil pointer (\<open>None\<close>) or the address of an instance.  The instances live in \<open>heap\<close>,
  by address, and \<open>next_ref\<close> is the address the next \<open>&VrrpInstance{...}\<close> gets.  The
  slice a loop ranges over shares its instances with the registry: what a call made
  inside the loop assigns through a pointer, the loop sees.
\<close>

record VrrpInstance =
  IfName :: string
  VrId :: "8 word"
  Process :: "handle option"

type_synonym ref = nat

record VrrpState =
  vs_State :: string
  vs_ChangedAt :: int

text \<open>
  \<open>map[string]*VrrpState\<close>: \<open>None\<close> is the nil map, \<open>Some kvs\<close> a map with the
  entries \<open>kvs\<close>.
\<close>

type_synonym status_map = "(string \<times> VrrpState option) list option"

datatype error = Error string

datatype event =
    E_VrrpStateDelete string        \<comment> \<open>entry of \<open>VrrpStateDelete ifName\<close>\<close>
  | E_ProcessRegister handle        \<comment> \<open>\<open>process.ProcessRegister\<close>\<close>
  | E_ProcessUnregister handle      \<comment> \<open>\<open>process.ProcessUnregister\<close>\<close>
  | E_ExecLine string               \<comment> \<open>\<open>ExecLine(line)\<close>\<close>
  | E_Commit                        \<comment> \<open>\<open>Commit()\<close>\<close>
  | E_Remove string                 \<comment> \<open>\<open>os.Remove(name)\<close>\<close>
  | E_Symlink string string         \<comment> \<open>\<open>os.Symlink(oldname, newname)\<close>\<close>
  | E_Create string bool            \<comment> \<open>\<open>os.Create(name)\<close> and whether it succeeded\<close>
  | E_Execute string string bool    \<comment> \<open>\<open>tmpl.Execute\<close>: file, text, whether it succeeded\<close>
  | E_New bool                      \<comment> \<open>\<open>clientv3.New(cfg)\<close> and whether it succeeded\<close>
  | E_Lock string string bool       \<comment> \<open>\<open>EtcdLock\<close>: path, name prefix, whether it succeeded\<close>
  | E_Get string bool               \<comment> \<open>\<open>conn.Get\<close>\<close>
  | E_Put string string bool        \<comment> \<open>\<open>conn.Put\<close>\<close>
  | E_Delete string bool            \<comment> \<open>\<open>conn.Delete\<close>\<close>
  | E_Unlock string                 \<comment> \<open>\<open>EtcdUnlock\<close>\<close>
  | E_Close                         \<comment> \<open>\<open>conn.Close()\<close>\<close>

record world =
  VrrpInstanceMap :: "string \<rightharpoonup> ref option list"
  heap :: "ref \<Rightarrow> VrrpInstance"
  next_ref :: ref
  processes :: "(handle \<times> Process) list"
  next_handle :: handle
  etcd :: "string \<rightharpoonup> string"
  trace :: "event list"
  outcomes :: "bool list"

text \<open>
  Library functions whose result is a function of their argument are parameters:
  \<open>json.Unmarshal\<close> into an \<open>interface{}\<close> (whose values have type \<open>'j\<close>),
  \<open>mapstructure.Decode\<close> into a \<open>VrrpConfig\<close>, \<open>json.Unmarshal\<close> into a
  \<open>map[string]*VrrpState\<close> (given the map's value before the call), the quoting of a
  string by \<open>json.Marshal\<close>, \<open>configActive.LookupByPath\<close> (the names of the node's
  keys, \<open>None\<close> for a nil node) and \<open>net.ParseCIDR\<close> (the network's text).

  Modelled from the spec: the commit subsystem is not in this file.  A commit applies
  the command lines handed to \<open>ExecLine\<close> to the configuration tree and triggers the
  dependent reconciliation: \<open>VrrpJsonConfig\<close> is ``called from \<open>Commit()\<close>'', with a
  configuration path and the document of the virtual routers the tree then holds for
  the VRF.  The tree and its documents are the subsystem's: \<open>Commit_calls\<close> gives the
  calls of \<open>VrrpJsonConfig\<close> a commit makes, path and document, in order, from the
  calls of \<open>ExecLine\<close> and \<open>Commit\<close> made so far, this commit included.
\<close>

record 'j env =
  json_Unmarshal :: "string \<Rightarrow> error + 'j"
  mapstructure_Decode :: "'j \<Rightarrow> error + Vrrp list"
  json_Unmarshal_status :: "string \<Rightarrow> status_map \<Rightarrow> error + status_map"
  json_quote :: "string \<Rightarrow> string"
  LookupByPath :: "string list \<Rightarrow> string list option"
  ParseCIDR :: "string \<Rightarrow> string option"
  Commit_calls :: "event list \<Rightarrow> (string list \<times> string) list"

subsection \<open>Calls to the collaborators\<close>

definition emit :: "event \<Rightarrow> world \<Rightarrow> world" where
  "emit e w = w\<lparr>trace := trace w @ [e]\<rparr>"

text \<open>
  The outcome of the next fallible call: the head of \<open>outcomes\<close>, success when
  the list is used up.
\<close>

definition next_ok :: "world \<Rightarrow> bool" where
  "next_ok w = (case outcomes w of [] \<Rightarrow> True | b # _ \<Rightarrow> b)"

definition advance :: "world \<Rightarrow> world" where
  "advance w = w\<lparr>outcomes := tl (outcomes w)\<rparr>"

text \<open>
  Modelled from the spec: \<open>process.ProcessRegister\<close> adds a handle to the supervisor's
  table and \<open>process.ProcessUnregister\<close> removes it; \<open>ExecLine\<close> hands a command line to
  the local configuration CLI, which applies it at the next commit.
\<close>

definition ProcessRegister :: "handle \<Rightarrow> Process \<Rightarrow> world \<Rightarrow> world" where
  "ProcessRegister h p w = emit (E_ProcessRegister h) (w\<lparr>processes := processes w @ [(h, p)]\<rparr>)"

definition ProcessUnregister :: "handle \<Rightarrow> world \<Rightarrow> world" where
  "ProcessUnregister h w =
     emit (E_ProcessUnregister h) (w\<lparr>processes := filter (\<lambda>(h', _). h' \<noteq> h) (processes w)\<rparr>)"

definition ExecLine :: "string \<Rightarrow> world \<Rightarrow> world" where
  "ExecLine line w = emit (E_ExecLine line) w"

text \<open>
  The slot of a VRF, as the pointers it holds (\<open>refs\<close>) and as the instances they
  address (\<open>slot\<close>); a missing key reads as the nil slice.
\<close>

definition refs :: "world \<Rightarrow> string \<Rightarrow> ref option list" where
  "refs w vrf = (case VrrpInstanceMap w vrf of None \<Rightarrow> [] | Some rs \<Rightarrow> rs)"

definition slot :: "world \<Rightarrow> string \<Rightarrow> VrrpInstance option list" where
  "slot w vrf = map (map_option (heap w)) (refs w vrf)"

definition set_slot :: "string \<Rightarrow> ref option list \<Rightarrow> world \<Rightarrow> world" where
  "set_slot vrf rs w = w\<lparr>VrrpInstanceMap := (VrrpInstanceMap w)(vrf \<mapsto> rs)\<rparr>"

text \<open>The calls of one kind on the trace, in order.\<close>

definition calls :: "(event \<Rightarrow> 'a option) \<Rightarrow> world \<Rightarrow> 'a list" where
  "calls f w = List.map_filter f (trace w)"

fun cli_call :: "event \<Rightarrow> event option" where
  "cli_call (E_ExecLine line) = Some (E_ExecLine line)"
| "cli_call E_Commit = Some E_Commit"
| "cli_call _ = None"

subsection \<open>The configuration template\<close>

text \<open>
  \<open>vrrpConfigTemplateText\<close> executed on a \<open>*Vrrp\<close>.  Every line of the template ends
  with a newline; the body of the \<open>range\<close> action is one line per unicast peer, and the
  newline after its \<open>end\<close> gives one empty line.
\<close>

definition unlines :: "string list \<Rightarrow> string" where
  "unlines ls = concat (map (\<lambda>l. l @ [CHR 0x0A]) ls)"

definition vrrpConfigTemplateLines :: "Vrrp \<Rightarrow> string list" where
  "vrrpConfigTemplateLines v =
     [''# Do not edit!'',
      ''# This file is automatically generated from OpenConfigd.'',
      ''#'',
      ''vrrp_script bgp_track {'',
      ''    script /usr/bin/keepalived_track.sh'',
      ''    interval 1'',
      ''    fall 3'',
      ''    rise 3'',
      (if Preempt v then ''    weight 50'' else []),
      ''}'',
      [],
      ''vrrp_instance '' @ Name v @ '' {'',
      ''    notify /usr/bin/keepalived_'' @ State v @ ''_'' @ Vrf v @ ''.sh'',
      ''    state '' @ (if State v = ''master'' then ''MASTER'' else ''BACKUP''),
      ''    interface '' @ Vrf v,
      ''    virtual_router_id '' @ string_of_nat (unat (Vrid v)),
      ''    priority '' @ string_of_int (Priority v),
      ''    advert_int '' @
         (if AdvertisementInterval v = 0 then ''10''
          else string_of_int (AdvertisementInterval v)),
      ''    use_vmac'',
      ''    vmac_xmit_base'',
      (if \<not> Preempt v then ''    nopreempt'' else []),
      ''    unicast_peer {''] @
     map (\<lambda>w. ''        '' @ Address w) (UnicastPeerList v) @
     [[],
      ''    }'',
      ''    virtual_ipaddress {'',
      ''        '' @ VirtualAddress v @ '' dev '' @ Interface v,
      ''    }'',
      ''    track_script {'',
      ''        bgp_track'',
      ''    }'',
      ''    track_interface {'',
      ''        '' @ Interface v,
      ''    }'',
      ''}'']"

definition vrrpConfigTemplateText :: "Vrrp \<Rightarrow> string" where
  "vrrpConfigTemplateText v = unlines (vrrpConfigTemplateLines v)"

subsection \<open>Starting a daemon\<close>

definition VrrpServerStart :: "string \<Rightarrow> string \<Rightarrow> string \<Rightarrow> string \<Rightarrow> world \<Rightarrow> handle \<times> world" where
  "VrrpServerStart config pid vrrpPid vrf w =
     (let args = [''--vrrp'', ''-D'', ''-n'', ''-f'', config, ''-p'', pid, ''-r'', vrrpPid];
          proc = \<lparr>p_Name = ''keepalived'', p_Args = args, p_Vrf = vrf,
                  p_StartTimer = 10, p_KillPidFile = vrrpPid\<rparr>;
          h = next_handle w
      in (h, ProcessRegister h proc (w\<lparr>next_handle := Suc h\<rparr>)))"

definition LocalCidrLookup :: "'j env \<Rightarrow> string \<Rightarrow> string" where
  "LocalCidrLookup env ifName =
     (case LookupByPath env [''interfaces'', ''interface'', ifName, ''ipv4'', ''address''] of
        Some (k # _) \<Rightarrow> (case ParseCIDR env k of Some netaddr \<Rightarrow> netaddr | None \<Rightarrow> [])
      | _ \<Rightarrow> [])"

text \<open>
  \<open>VrrpServerExec\<close>.  The results of \<open>os.Remove\<close>, \<open>os.Symlink\<close> and
  \<open>tmpl.Execute\<close> are dropped by the code; only a failing \<open>os.Create\<close> returns nil.
\<close>

definition VrrpServerExec :: "'j env \<Rightarrow> Vrrp \<Rightarrow> string \<Rightarrow> world \<Rightarrow> handle option \<times> world" where
  "VrrpServerExec env vrrp vrf w =
     (let configFileName = ''/etc/keepalived/keepalived-'' @ Interface vrrp @ ''.conf'';
          pidFileName = ''/var/run/keepalived-'' @ Interface vrrp @ ''.pid'';
          vrrpPidFileName = ''/var/run/keepalived_vrrp-'' @ Interface vrrp @ ''.pid'';
          srcFileName = ''/usr/bin/keepalived_'' @ State vrrp @ ''.sh'';
          dstFileName = ''/usr/bin/keepalived_'' @ State vrrp @ ''_'' @ vrf @ ''.sh'';
          w1 = emit (E_Remove dstFileName) w;
          w2 = emit (E_Symlink srcFileName dstFileName) w1;
          created = next_ok w2;
          w3 = emit (E_Create configFileName created) (advance w2)
      in if \<not> created then (None, w3)
         else
           let vrrp' = vrrp\<lparr>Vrf := vrf,
                  Name := ''vrrp'' @ string_of_nat (unat (Vrid vrrp)) @ ''-'' @ Interface vrrp
                          @ ''-'' @ LocalCidrLookup env (Interface vrrp)\<rparr>;
               written = next_ok w3;
               w4 = emit (E_Execute configFileName (vrrpConfigTemplateText vrrp') written)
                      (advance w3);
               (h, w5) = VrrpServerStart configFileName pidFileName vrrpPidFileName vrf w4
           in (Some h, w5))"

subsection \<open>The published state\<close>

definition VrrpEtcdPath :: string where
  "VrrpEtcdPath = ''/state/services/port/vrrp''"

definition lockPath :: string where
  "lockPath = ''/local/vrrp/state/lock''"

text \<open>
  \<open>json.Marshal\<close> of a \<open>map[string]*VrrpState\<close>: a nil map is \<open>null\<close>, any other
  map an object with its keys in sorted order; a nil pointer is \<open>null\<close>.
\<close>

definition dq :: char where
  "dq = CHR 0x22"

definition marshal_VrrpState :: "'j env \<Rightarrow> VrrpState option \<Rightarrow> string" where
  "marshal_VrrpState env p =
     (case p of
        None \<Rightarrow> ''null''
      | Some s \<Rightarrow>
          ''{'' @ [dq] @ ''state'' @ [dq] @ '':'' @ json_quote env (vs_State s) @ '','' @
          [dq] @ ''changed_at'' @ [dq] @ '':'' @ string_of_int (vs_ChangedAt s) @ ''}'')"

fun join_comma :: "string list \<Rightarrow> string" where
  "join_comma [] = []"
| "join_comma [x] = x"
| "join_comma (x # y # zs) = x @ '','' @ join_comma (y # zs)"

definition json_Marshal :: "'j env \<Rightarrow> status_map \<Rightarrow> string" where
  "json_Marshal env m =
     (case m of
        None \<Rightarrow> ''null''
      | Some kvs \<Rightarrow>
          ''{'' @ join_comma (map (\<lambda>(k, v). json_quote env k @ '':'' @ marshal_VrrpState env v)
                              (sort_key fst kvs)) @ ''}'')"

text \<open>\<open>delete(m, key)\<close>: no-op on a nil map.\<close>

definition go_delete :: "status_map \<Rightarrow> string \<Rightarrow> status_map" where
  "go_delete m key = map_option (filter (\<lambda>(k, _). k \<noteq> key)) m"

text \<open>\<open>resp.Kvs\<close> of a \<open>Get\<close> of one key: the value, if the key is there.\<close>

definition Kvs :: "world \<Rightarrow> string \<Rightarrow> string list" where
  "Kvs w path = (case etcd w path of None \<Rightarrow> [] | Some v \<Rightarrow> [v])"

fun unmarshal_Kvs :: "'j env \<Rightarrow> string list \<Rightarrow> status_map \<Rightarrow> error + status_map" where
  "unmarshal_Kvs env [] m = Inr m"
| "unmarshal_Kvs env (v # vs) m =
     (case json_Unmarshal_status env v m of
        Inl e \<Rightarrow> Inl e
      | Inr m' \<Rightarrow> unmarshal_Kvs env vs m')"

definition conn_Delete :: "string \<Rightarrow> world \<Rightarrow> world" where
  "conn_Delete path w =
     (let ok = next_ok w; w1 = advance w
      in emit (E_Delete path ok) (if ok then w1\<lparr>etcd := (etcd w1)(path := None)\<rparr> else w1))"

definition conn_Put :: "string \<Rightarrow> string \<Rightarrow> world \<Rightarrow> world" where
  "conn_Put path val w =
     (let ok = next_ok w; w1 = advance w
      in emit (E_Put path val ok) (if ok then w1\<lparr>etcd := (etcd w1)(path \<mapsto> val)\<rparr> else w1))"

text \<open>
  The part of \<open>VrrpStateDelete\<close> after the two \<open>defer\<close> statements: from
  \<open>conn.Get\<close> to the end of the function, with its two early returns.
\<close>

definition VrrpStateDelete_locked :: "'j env \<Rightarrow> string \<Rightarrow> world \<Rightarrow> world" where
  "VrrpStateDelete_locked env ifName w =
     (let got = next_ok w;
          w1 = emit (E_Get VrrpEtcdPath got) (advance w)
      in if \<not> got then w1
         else
           case unmarshal_Kvs env (Kvs w1 VrrpEtcdPath) None of
             Inl e \<Rightarrow> w1
           | Inr m \<Rightarrow>
               let vrrpStatusMap = go_delete m ifName;
                   jsonstr = json_Marshal env vrrpStatusMap
               in if jsonstr = ''{}'' then conn_Delete VrrpEtcdPath w1
                  else conn_Put VrrpEtcdPath jsonstr w1)"

text \<open>
  \<open>VrrpStateDelete\<close>.  The error of \<open>EtcdLock\<close> is overwritten by that of \<open>conn.Get\<close>
  before it is read, so the function goes on whether or not the lock was taken.  The
  deferred \<open>EtcdUnlock\<close> and \<open>conn.Close\<close> run in this order on every return that follows
  them.

  Modelled from the spec: \<open>EtcdLock\<close> and \<open>EtcdUnlock\<close> are the store's
  \<open>lock(path, token, blocking)\<close> and \<open>unlock(path, leaseId)\<close>, recorded as calls; the
  random suffix of the token and the lease id handed from the one to the other are left
  out.
\<close>

definition VrrpStateDelete :: "'j env \<Rightarrow> string \<Rightarrow> world \<Rightarrow> world" where
  "VrrpStateDelete env ifName w =
     (let w0 = emit (E_VrrpStateDelete ifName) w;
          connected = next_ok w0;
          w1 = emit (E_New connected) (advance w0)
      in if \<not> connected then w1
         else
           let locked = next_ok w1;
               w2 = emit (E_Lock lockPath ifName locked) (advance w1);
               w3 = VrrpStateDelete_locked env ifName w2;
               w4 = emit (E_Unlock lockPath) w3
           in emit E_Close w4)"

subsection \<open>Reconciliation: \<open>VrrpJsonConfig\<close>\<close>

text \<open>
  \<open>if instance.Process != nil { process.ProcessUnregister(instance.Process);
  instance.Process = nil }\<close>, as it stands in \<open>VrrpJsonConfig\<close> and \<open>VrrpVrfDelete\<close>.
\<close>

definition stop_process :: "ref \<Rightarrow> world \<Rightarrow> world" where
  "stop_process instance w =
     (case Process (heap w instance) of
        None \<Rightarrow> w
      | Some p \<Rightarrow>
          let w1 = ProcessUnregister p w
          in w1\<lparr>heap := (heap w1)(instance := (heap w1 instance)\<lparr>Process := None\<rparr>)\<rparr>)"

text \<open>The first loop of \<open>VrrpJsonConfig\<close>, over the pointers found in the slot.\<close>

fun clear_loop :: "'j env \<Rightarrow> ref option list \<Rightarrow> world \<Rightarrow> world" where
  "clear_loop env [] w = w"
| "clear_loop env (None # rest) w = clear_loop env rest w"
| "clear_loop env (Some instance # rest) w =
     (let w1 = stop_process instance w;
          w2 = VrrpStateDelete env (IfName (heap w1 instance)) w1
      in clear_loop env rest w2)"

text \<open>
  The body of the second loop of \<open>VrrpJsonConfig\<close>: the instance is allocated and its
  pointer appended to the slot, then \<open>VrrpServerExec\<close> runs, then its result is
  assigned to \<open>instance.Process\<close>.
\<close>

definition start_instance :: "'j env \<Rightarrow> string \<Rightarrow> Vrrp \<Rightarrow> world \<Rightarrow> world" where
  "start_instance env vrf vrrp w =
     (let instance = next_ref w;
          w1 = w\<lparr>heap := (heap w)(instance :=
                  \<lparr>IfName = Interface vrrp, VrId = Vrid vrrp, Process = None\<rparr>),
                next_ref := Suc instance\<rparr>;
          w2 = set_slot vrf (refs w1 vrf @ [Some instance]) w1;
          (p, w3) = VrrpServerExec env vrrp vrf w2
      in w3\<lparr>heap := (heap w3)(instance := (heap w3 instance)\<lparr>Process := p\<rparr>)\<rparr>)"

fun start_loop :: "'j env \<Rightarrow> string \<Rightarrow> Vrrp list \<Rightarrow> world \<Rightarrow> world" where
  "start_loop env vrf [] w = w"
| "start_loop env vrf (vrrp # rest) w = start_loop env vrf rest (start_instance env vrf vrrp w)"

definition VrrpJsonConfig :: "'j env \<Rightarrow> string list \<Rightarrow> string \<Rightarrow> world \<Rightarrow> error option \<times> world" where
  "VrrpJsonConfig env path str w =
     (case json_Unmarshal env str of
        Inl err \<Rightarrow> (Some err, w)
      | Inr jsonIntf \<Rightarrow>
          (case mapstructure_Decode env jsonIntf of
             Inl err \<Rightarrow> (Some err, w)
           | Inr vrrpConfig \<Rightarrow>
               if length path < 3 then (None, w)
               else
                 let vrf = path ! 2;
                     w1 = clear_loop env (refs w vrf) w;
                     w2 = set_slot vrf [] w1
                 in if length vrrpConfig = 0 then (None, w2)
                    else (None, start_loop env vrf vrrpConfig w2)))"

subsection \<open>The commit\<close>

text \<open>
  Modelled from the spec: \<open>Commit\<close> is not in this file.  It is a call to the local
  configuration CLI which, before it returns, runs the reconciler on every path and
  document \<open>Commit_calls\<close> gives for it; the error a reconciliation returns is the
  subsystem's to handle and does not stop the others.
\<close>

definition reconcile :: "'j env \<Rightarrow> (string list \<times> string) list \<Rightarrow> world \<Rightarrow> world" where
  "reconcile env cs w = fold (\<lambda>(path, str) w'. snd (VrrpJsonConfig env path str w')) cs w"

definition Commit :: "'j env \<Rightarrow> world \<Rightarrow> world" where
  "Commit env w =
     (let w1 = emit E_Commit w
      in reconcile env (Commit_calls env (calls cli_call w1)) w1)"

subsection \<open>The CLI mirror: \<open>VrrpVrfSync\<close> and \<open>VrrpVrfDelete\<close>\<close>

definition delete_line :: "int \<Rightarrow> 8 word \<Rightarrow> string" where
  "delete_line vrfId vrid =
     ''delete vrf name vrf'' @ string_of_int vrfId @ '' vrrp '' @ string_of_nat (unat vrid)"

definition set_line :: "int \<Rightarrow> 8 word \<Rightarrow> string" where
  "set_line vrfId vrid =
     ''set vrf name vrf'' @ string_of_int vrfId @ '' vrrp '' @ string_of_nat (unat vrid)"

fun sync_delete_loop :: "int \<Rightarrow> ref option list \<Rightarrow> world \<Rightarrow> world" where
  "sync_delete_loop vrfId [] w = w"
| "sync_delete_loop vrfId (None # rest) w = sync_delete_loop vrfId rest w"
| "sync_delete_loop vrfId (Some instance # rest) w =
     sync_delete_loop vrfId rest (ExecLine (delete_line vrfId (VrId (heap w instance))) w)"

text \<open>The body of the loop over \<open>cfg.Vrrp\<close>.\<close>

definition sync_vrrp :: "int \<Rightarrow> Vrrp \<Rightarrow> world \<Rightarrow> world" where
  "sync_vrrp vrfId vrrp w =
     (let pre = set_line vrfId (Vrid vrrp);
          w1 = ExecLine pre w;
          w2 = (if Interface vrrp \<noteq> [] then ExecLine (pre @ '' interface '' @ Interface vrrp) w1
                else w1);
          w3 = (if AdvertisementInterval vrrp \<noteq> 0
                then ExecLine (pre @ '' advertisement-interval '' @
                               string_of_int (AdvertisementInterval vrrp)) w2
                else w2);
          w4 = (if Preempt vrrp then ExecLine (pre @ '' preempt'') w3 else w3);
          w5 = (if Priority vrrp \<noteq> 0
                then ExecLine (pre @ '' priority '' @ string_of_int (Priority vrrp)) w4
                else w4);
          w6 = (if State vrrp = ''master'' then ExecLine (pre @ '' state master'') w5
                else ExecLine (pre @ '' state backup'') w5);
          w7 = (if VirtualAddress vrrp \<noteq> []
                then ExecLine (pre @ '' virtual-address '' @ VirtualAddress vrrp) w6
                else w6)
      in fold (\<lambda>peer. ExecLine (pre @ '' unicast-peer '' @ Address peer))
           (UnicastPeerList vrrp) w7)"

text \<open>
  \<open>VrrpVrfSync\<close>.  A nil \<open>cfg\<close> panics at the first statement, before any call
  (\<open>None\<close>).
\<close>

definition VrrpVrfSync :: "'j env \<Rightarrow> int \<Rightarrow> VrfsConfig option \<Rightarrow> world \<Rightarrow> world option" where
  "VrrpVrfSync env vrfId cfg w =
     (case cfg of
        None \<Rightarrow> None
      | Some c \<Rightarrow>
          let vrf = ''vrf'' @ string_of_int vrfId;
              w1 = sync_delete_loop vrfId (refs w vrf) w;
              w2 = fold (sync_vrrp vrfId) (cfg_Vrrp c) w1
          in Some (Commit env w2))"

text \<open>
  The loop of \<open>VrrpVrfDelete\<close>, over the pointers found in the slot when the function
  is entered.
\<close>

fun delete_loop :: "'j env \<Rightarrow> int \<Rightarrow> ref option list \<Rightarrow> world \<Rightarrow> world" where
  "delete_loop env vrfId [] w = w"
| "delete_loop env vrfId (None # rest) w = delete_loop env vrfId rest w"
| "delete_loop env vrfId (Some instance # rest) w =
     (let w1 = stop_process instance w;
          w2 = ExecLine (delete_line vrfId (VrId (heap w1 instance))) w1;
          w3 = Commit env w2;
          w4 = VrrpStateDelete env (IfName (heap w3 instance)) w3
      in delete_loop env vrfId rest w4)"

definition VrrpVrfDelete :: "'j env \<Rightarrow> int \<Rightarrow> world \<Rightarrow> world" where
  "VrrpVrfDelete env vrfId w =
     delete_loop env vrfId (refs w (''vrf'' @ string_of_int vrfId)) w"

subsection \<open>Reading the trace\<close>

text \<open>
  Projections of the trace on one kind of call.  Each function of the file only
  appends to the trace, so what a call issues is what it adds to a projection.
\<close>

fun state_deletion :: "event \<Rightarrow> string option" where
  "state_deletion (E_VrrpStateDelete ifName) = Some ifName"
| "state_deletion _ = None"

fun registered :: "event \<Rightarrow> handle option" where
  "registered (E_ProcessRegister h) = Some h"
| "registered _ = None"

fun unregistered :: "event \<Rightarrow> handle option" where
  "unregistered (E_ProcessUnregister h) = Some h"
| "unregistered _ = None"

fun exec_line :: "event \<Rightarrow> string option" where
  "exec_line (E_ExecLine line) = Some line"
| "exec_line _ = None"

fun created :: "event \<Rightarrow> (string \<times> bool) option" where
  "created (E_Create name ok) = Some (name, ok)"
| "created _ = None"

fun executed :: "event \<Rightarrow> (string \<times> bool) option" where
  "executed (E_Execute name text ok) = Some (name, ok)"
| "executed _ = None"

fun is_store_access :: "event \<Rightarrow> bool" where
  "is_store_access (E_Get path ok) = True"
| "is_store_access (E_Put path val ok) = True"
| "is_store_access (E_Delete path ok) = True"
| "is_store_access _ = False"

text \<open>The instances of a slot: its non-nil entries.\<close>

definition instances :: "VrrpInstance option list \<Rightarrow> VrrpInstance list" where
  "instances xs = List.map_filter id xs"

text \<open>An entry of a slot that is an instance with a process handle, with none.\<close>

definition has_handle :: "VrrpInstance option \<Rightarrow> bool" where
  "has_handle x = (case x of None \<Rightarrow> False | Some i \<Rightarrow> Process i \<noteq> None)"

definition nil_handle :: "VrrpInstance option \<Rightarrow> bool" where
  "nil_handle x = (case x of None \<Rightarrow> False | Some i \<Rightarrow> Process i = None)"

text \<open>
  What became of the process of the instance at an address between two worlds, the
  second reached from the first: the calls to \<open>process.ProcessUnregister\<close> of the first
  are a prefix of those of the second, and the handle is the one it was, or it is nil
  and the process it was is among those unregistered in between.
\<close>

definition stopped_or_kept :: "world \<Rightarrow> world \<Rightarrow> ref \<Rightarrow> bool" where
  "stopped_or_kept w w' r \<longleftrightarrow>
     (\<exists>us. calls unregistered w' = calls unregistered w @ us \<and>
        (Process (heap w' r) = Process (heap w r) \<or>
         Process (heap w' r) = None \<and> (\<exists>h. Process (heap w r) = Some h \<and> h \<in> set us)))"

definition configFile :: "Vrrp \<Rightarrow> string" where
  "configFile vrrp = ''/etc/keepalived/keepalived-'' @ Interface vrrp @ ''.conf''"

subsection \<open>Example environments and worlds\<close>

text \<open>
  The library functions on a handful of inputs: the documents \<open>[]\<close> and \<open>[{},{}]\<close>
  decode to no definition and to two definitions with every field zero, \<open>[1]\<close> is
  JSON that is no list of definitions, and anything else is rejected as malformed;
  the state documents \<open>{}\<close> and \<open>null\<close> decode to the empty and to the nil map.  In
  \<open>example_env\<close> no commit calls the reconciler.
\<close>

definition zero_Vrrp :: Vrrp where
  "zero_Vrrp = \<lparr>Vrid = 0, Interface = [], State = [], Priority = 0,
     AdvertisementInterval = 0, Preempt = False, VirtualAddress = [],
     UnicastPeerList = [], Vrf = [], Name = []\<rparr>"

definition example_env :: "string env" where
  "example_env =
     \<lparr>json_Unmarshal =
        (\<lambda>s. if s \<in> {''[]'', ''[{},{}]'', ''[1]''} then Inr s
             else Inl (Error ''unexpected end of JSON input'')),
      mapstructure_Decode =
        (\<lambda>j. if j = ''[]'' then Inr []
             else if j = ''[{},{}]'' then Inr [zero_Vrrp, zero_Vrrp]
             else Inl (Error ''expected a map'')),
      json_Unmarshal_status =
        (\<lambda>s m. if s = ''{}'' then Inr (case m of None \<Rightarrow> Some [] | Some kvs \<Rightarrow> Some kvs)
               else if s = ''null'' then Inr None
               else Inl (Error ''invalid character'')),
      json_quote = (\<lambda>s. [dq] @ s @ [dq]),
      LookupByPath = (\<lambda>path. None),
      ParseCIDR = (\<lambda>s. None),
      Commit_calls = (\<lambda>history. [])\<rparr>"

text \<open>
  A commit subsystem whose tree holds two virtual routers for \<open>vrf3\<close>, 1 on \<open>eth0\<close>
  and 2 on \<open>eth1\<close>.  The commit after the line that deletes router 1 reconciles \<open>vrf3\<close>
  with the document of router 2, and the commit after the line that then deletes
  router 2 reconciles it with the empty document.
\<close>

definition eth1_document :: string where
  "eth1_document =
     ''[{'' @ [dq] @ ''vrid'' @ [dq] @ '':2,'' @ [dq] @ ''interface'' @ [dq] @ '':'' @
     [dq] @ ''eth1'' @ [dq] @ ''}]''"

definition eth1_definition :: Vrrp where
  "eth1_definition = zero_Vrrp\<lparr>Vrid := 2, Interface := ''eth1''\<rparr>"

definition tree_commit :: "event list \<Rightarrow> (string list \<times> string) list" where
  "tree_commit history =
     (if history = [E_ExecLine ''delete vrf name vrf3 vrrp 1'', E_Commit]
      then [([''vrf'', ''name'', ''vrf3''], eth1_document)]
      else if history = [E_ExecLine ''delete vrf name vrf3 vrrp 1'', E_Commit,
                         E_ExecLine ''delete vrf name vrf3 vrrp 2'', E_Commit]
      then [([''vrf'', ''name'', ''vrf3''], ''[]'')]
      else [])"

definition reentrant_env :: "string env" where
  "reentrant_env =
     example_env
       \<lparr>json_Unmarshal :=
          (\<lambda>s. if s = eth1_document then Inr s else json_Unmarshal example_env s),
        mapstructure_Decode :=
          (\<lambda>j. if j = eth1_document then Inr [eth1_definition]
               else mapstructure_Decode example_env j),
        Commit_calls := tree_commit\<rparr>"

definition zero_instance :: VrrpInstance where
  "zero_instance = \<lparr>IfName = [], VrId = 0, Process = None\<rparr>"

definition empty_world :: world where
  "empty_world =
     \<lparr>VrrpInstanceMap = Map.empty, heap = (\<lambda>r. zero_instance), next_ref = 0,
      processes = [], next_handle = 0, etcd = Map.empty, trace = [], outcomes = []\<rparr>"

definition keepalived :: "string \<Rightarrow> string \<Rightarrow> Process" where
  "keepalived ifName vrf =
     \<lparr>p_Name = ''keepalived'',
      p_Args = [''--vrrp'', ''-D'', ''-n'',
                ''-f'', ''/etc/keepalived/keepalived-'' @ ifName @ ''.conf'',
                ''-p'', ''/var/run/keepalived-'' @ ifName @ ''.pid'',
                ''-r'', ''/var/run/keepalived_vrrp-'' @ ifName @ ''.pid''],
      p_Vrf = vrf, p_StartTimer = 10,
      p_KillPidFile = ''/var/run/keepalived_vrrp-'' @ ifName @ ''.pid''\<rparr>"

text \<open>
  A world in which \<open>vrf3\<close> holds two instances: one on \<open>eth0\<close> with a registered
  process, at address 0, and one on \<open>eth1\<close> whose handle is nil, at address 1; and the
  same world with the two pointers in the other order.
\<close>

definition two_instance_world :: world where
  "two_instance_world =
     \<lparr>VrrpInstanceMap = [''vrf3'' \<mapsto> [Some 0, Some 1]],
      heap = (\<lambda>r. zero_instance)
        (0 := \<lparr>IfName = ''eth0'', VrId = 1, Process = Some 0\<rparr>,
         1 := \<lparr>IfName = ''eth1'', VrId = 2, Process = None\<rparr>),
      next_ref = 2,
      processes = [(0, keepalived ''eth0'' ''vrf3'')], next_handle = 1, etcd = Map.empty,
      trace = [], outcomes = []\<rparr>"

definition nil_first_world :: world where
  "nil_first_world = two_instance_world\<lparr>VrrpInstanceMap := [''vrf3'' \<mapsto> [Some 1, Some 0]]\<rparr>"

text \<open>
  The definition \<open>{id: 1, interface: eth0, role: master, priority: 100}\<close>, every
  other field zero or empty, and a world whose slot for \<open>vrf3\<close> holds one instance
  with virtual-router id 2.
\<close>

definition sync_definition :: Vrrp where
  "sync_definition =
     zero_Vrrp\<lparr>Vrid := 1, Interface := ''eth0'', State := ''master'', Priority := 100\<rparr>"

definition sync_world :: world where
  "sync_world =
     empty_world
       \<lparr>VrrpInstanceMap := [''vrf3'' \<mapsto> [Some 0]],
        heap := (\<lambda>r. zero_instance)(0 := \<lparr>IfName = ''eth1'', VrId = 2, Process = None\<rparr>),
        next_ref := 1\<rparr>"

section \<open>Basic facts\<close>

lemma calls_emit [simp]:
  "calls f (emit e w) = calls f w @ (case f e of None \<Rightarrow> [] | Some x \<Rightarrow> [x])"
  by (simp add: calls_def emit_def List.map_filter_def split: option.splits)

lemma calls_advance [simp]: "calls f (advance w) = calls f w"
  by (simp add: calls_def advance_def)

lemma calls_update [simp]:
  "calls f (w\<lparr>etcd := s\<rparr>) = calls f w"
  "calls f (w\<lparr>VrrpInstanceMap := r\<rparr>) = calls f w"
  "calls f (w\<lparr>heap := hp\<rparr>) = calls f w"
  "calls f (w\<lparr>next_ref := n\<rparr>) = calls f w"
  "calls f (w\<lparr>outcomes := os\<rparr>) = calls f w"
  "calls f (w\<lparr>processes := ps\<rparr>) = calls f w"
  "calls f (w\<lparr>next_handle := h\<rparr>) = calls f w"
  by (simp_all add: calls_def)

lemma calls_append:
  "trace w' = trace w @ es \<Longrightarrow> calls f w' = calls f w @ List.map_filter f es"
  by (simp add: calls_def List.map_filter_def)

lemma refs_update [simp]:
  "refs (w\<lparr>heap := hp\<rparr>) vrf = refs w vrf"
  "refs (w\<lparr>next_ref := n\<rparr>) vrf = refs w vrf"
  "refs (w\<lparr>processes := ps\<rparr>) vrf = refs w vrf"
  "refs (w\<lparr>next_handle := h\<rparr>) vrf = refs w vrf"
  "refs (w\<lparr>etcd := s\<rparr>) vrf = refs w vrf"
  "refs (w\<lparr>trace := t\<rparr>) vrf = refs w vrf"
  "refs (w\<lparr>outcomes := os\<rparr>) vrf = refs w vrf"
  by (simp_all add: refs_def)

lemma emit_fields [simp]:
  "VrrpInstanceMap (emit e w) = VrrpInstanceMap w"
  "heap (emit e w) = heap w"
  "next_ref (emit e w) = next_ref w"
  "refs (emit e w) vrf = refs w vrf"
  "processes (emit e w) = processes w"
  "next_handle (emit e w) = next_handle w"
  "etcd (emit e w) = etcd w"
  "outcomes (emit e w) = outcomes w"
  "trace (emit e w) = trace w @ [e]"
  by (simp_all add: emit_def)

lemma advance_fields [simp]:
  "VrrpInstanceMap (advance w) = VrrpInstanceMap w"
  "heap (advance w) = heap w"
  "next_ref (advance w) = next_ref w"
  "refs (advance w) vrf = refs w vrf"
  "processes (advance w) = processes w"
  "next_handle (advance w) = next_handle w"
  "etcd (advance w) = etcd w"
  "trace (advance w) = trace w"
  by (simp_all add: advance_def)

lemma next_ok_emit [simp]: "next_ok (emit e w) = next_ok w"
  by (simp add: next_ok_def)

lemma outcomes_used_up [simp]:
  "outcomes w = [] \<Longrightarrow> next_ok w"
  "outcomes w = [] \<Longrightarrow> outcomes (advance w) = []"
  by (simp_all add: next_ok_def advance_def)

lemma instances_simps [simp]:
  "instances [] = []"
  "instances (None # xs) = instances xs"
  "instances (Some i # xs) = i # instances xs"
  by (simp_all add: instances_def List.map_filter_def)

lemma set_slot_fields [simp]:
  "VrrpInstanceMap (set_slot vrf rs w) = (VrrpInstanceMap w)(vrf \<mapsto> rs)"
  "heap (set_slot vrf rs w) = heap w"
  "next_ref (set_slot vrf rs w) = next_ref w"
  "processes (set_slot vrf rs w) = processes w"
  "next_handle (set_slot vrf rs w) = next_handle w"
  "etcd (set_slot vrf rs w) = etcd w"
  "trace (set_slot vrf rs w) = trace w"
  "outcomes (set_slot vrf rs w) = outcomes w"
  "calls f (set_slot vrf rs w) = calls f w"
  "refs (set_slot vrf rs w) vrf = rs"
  "vrf' \<noteq> vrf \<Longrightarrow> refs (set_slot vrf rs w) vrf' = refs w vrf'"
  by (simp_all add: set_slot_def refs_def calls_def)

lemma ProcessUnregister_fields [simp]:
  "VrrpInstanceMap (ProcessUnregister h w) = VrrpInstanceMap w"
  "heap (ProcessUnregister h w) = heap w"
  "next_ref (ProcessUnregister h w) = next_ref w"
  "next_handle (ProcessUnregister h w) = next_handle w"
  "outcomes (ProcessUnregister h w) = outcomes w"
  "refs (ProcessUnregister h w) vrf = refs w vrf"
  "processes (ProcessUnregister h w) = filter (\<lambda>(h', _). h' \<noteq> h) (processes w)"
  "calls f (ProcessUnregister h w) =
     calls f w @ (case f (E_ProcessUnregister h) of None \<Rightarrow> [] | Some x \<Rightarrow> [x])"
  by (simp_all add: ProcessUnregister_def)

lemma ProcessRegister_fields [simp]:
  "VrrpInstanceMap (ProcessRegister h p w) = VrrpInstanceMap w"
  "heap (ProcessRegister h p w) = heap w"
  "next_ref (ProcessRegister h p w) = next_ref w"
  "next_handle (ProcessRegister h p w) = next_handle w"
  "outcomes (ProcessRegister h p w) = outcomes w"
  "refs (ProcessRegister h p w) vrf = refs w vrf"
  "processes (ProcessRegister h p w) = processes w @ [(h, p)]"
  "calls f (ProcessRegister h p w) =
     calls f w @ (case f (E_ProcessRegister h) of None \<Rightarrow> [] | Some x \<Rightarrow> [x])"
  by (simp_all add: ProcessRegister_def)

lemma ExecLine_fields [simp]:
  "VrrpInstanceMap (ExecLine l w) = VrrpInstanceMap w"
  "heap (ExecLine l w) = heap w"
  "next_ref (ExecLine l w) = next_ref w"
  "processes (ExecLine l w) = processes w"
  "next_handle (ExecLine l w) = next_handle w"
  "outcomes (ExecLine l w) = outcomes w"
  "refs (ExecLine l w) vrf = refs w vrf"
  "calls f (ExecLine l w) = calls f w @ (case f (E_ExecLine l) of None \<Rightarrow> [] | Some x \<Rightarrow> [x])"
  by (simp_all add: ExecLine_def)

subsection \<open>\<open>VrrpStateDelete\<close>\<close>

text \<open>Between taking and releasing the lock the function only reads and writes the store.\<close>

lemma locked_trace:
  "\<exists>accesses. trace (VrrpStateDelete_locked env ifName w) = trace w @ accesses \<and>
     list_all is_store_access accesses"
  by (simp add: VrrpStateDelete_locked_def conn_Delete_def conn_Put_def Let_def
      split: sum.splits)

lemma locked_frame [simp]:
  "VrrpInstanceMap (VrrpStateDelete_locked env ifName w) = VrrpInstanceMap w"
  "heap (VrrpStateDelete_locked env ifName w) = heap w"
  "next_ref (VrrpStateDelete_locked env ifName w) = next_ref w"
  "processes (VrrpStateDelete_locked env ifName w) = processes w"
  "next_handle (VrrpStateDelete_locked env ifName w) = next_handle w"
  by (simp_all add: VrrpStateDelete_locked_def conn_Delete_def conn_Put_def Let_def
      split: sum.splits)

lemma VrrpStateDelete_frame [simp]:
  "VrrpInstanceMap (VrrpStateDelete env ifName w) = VrrpInstanceMap w"
  "heap (VrrpStateDelete env ifName w) = heap w"
  "next_ref (VrrpStateDelete env ifName w) = next_ref w"
  "processes (VrrpStateDelete env ifName w) = processes w"
  "next_handle (VrrpStateDelete env ifName w) = next_handle w"
  by (simp_all add: VrrpStateDelete_def Let_def)

lemma VrrpStateDelete_refs [simp]: "refs (VrrpStateDelete env ifName w) vrf = refs w vrf"
  by (simp add: refs_def)

lemma map_filter_store_access:
  "list_all is_store_access es \<Longrightarrow> (\<And>e. is_store_access e \<Longrightarrow> f e = None) \<Longrightarrow>
   List.map_filter f es = []"
  by (induction es) (auto simp: List.map_filter_def)

lemma store_access_other [simp]:
  "is_store_access e \<Longrightarrow> state_deletion e = None"
  "is_store_access e \<Longrightarrow> registered e = None"
  "is_store_access e \<Longrightarrow> unregistered e = None"
  "is_store_access e \<Longrightarrow> exec_line e = None"
  "is_store_access e \<Longrightarrow> created e = None"
  "is_store_access e \<Longrightarrow> executed e = None"
  "is_store_access e \<Longrightarrow> cli_call e = None"
  by (cases e; simp)+

lemma calls_locked:
  assumes "\<And>e. is_store_access e \<Longrightarrow> f e = None"
  shows "calls f (VrrpStateDelete_locked env ifName w) = calls f w"
proof -
  obtain accesses where a: "trace (VrrpStateDelete_locked env ifName w) = trace w @ accesses"
    "list_all is_store_access accesses"
    using locked_trace by blast
  from a(2) assms have "List.map_filter f accesses = []"
    by (rule map_filter_store_access)
  with calls_append [OF a(1), of f] show ?thesis by simp
qed

lemma VrrpStateDelete_calls [simp]:
  "calls state_deletion (VrrpStateDelete env ifName w) = calls state_deletion w @ [ifName]"
  "calls registered (VrrpStateDelete env ifName w) = calls registered w"
  "calls unregistered (VrrpStateDelete env ifName w) = calls unregistered w"
  "calls exec_line (VrrpStateDelete env ifName w) = calls exec_line w"
  "calls created (VrrpStateDelete env ifName w) = calls created w"
  "calls executed (VrrpStateDelete env ifName w) = calls executed w"
  "calls cli_call (VrrpStateDelete env ifName w) = calls cli_call w"
  by (simp_all add: VrrpStateDelete_def Let_def calls_locked)

text \<open>
  The comparison with \<open>{}\<close> recognises the empty map and nothing else: not the nil
  map, and no map with an entry.
\<close>

lemma join_comma_Nil: "join_comma xs = [] \<longleftrightarrow> xs = [] \<or> xs = [[]]"
  by (induction xs rule: join_comma.induct) auto

lemma join_comma_map_Nil:
  assumes "\<And>x. f x \<noteq> []"
  shows "join_comma (map f xs) = [] \<longleftrightarrow> xs = []"
proof (cases xs)
  case Nil
  then show ?thesis by simp
next
  case (Cons x ys)
  with assms [of x] show ?thesis by (simp add: join_comma_Nil)
qed

lemma json_Marshal_empty_object: "json_Marshal env m = ''{}'' \<longleftrightarrow> m = Some []"
proof (cases m)
  case None
  then show ?thesis by (simp add: json_Marshal_def)
next
  case (Some kvs)
  have "join_comma (map (\<lambda>(k, v). json_quote env k @ '':'' @ marshal_VrrpState env v)
          (sort_key fst kvs)) = [] \<longleftrightarrow> sort_key fst kvs = []"
    by (rule join_comma_map_Nil) (simp add: split_beta)
  moreover have "sort_key fst kvs = [] \<longleftrightarrow> kvs = []"
    using length_sort [of fst kvs] by (metis length_0_conv)
  ultimately show ?thesis using Some by (simp add: json_Marshal_def)
qed

text \<open>
  With every call succeeding, a stored document that decodes to a map whose only key
  is the interface is removed from the store.
\<close>

lemma VrrpStateDelete_last_interface:
  assumes "etcd w VrrpEtcdPath = Some doc"
    and "json_Unmarshal_status env doc None = Inr (Some [(ifName, st)])"
    and "outcomes w = []"
  shows "etcd (VrrpStateDelete env ifName w) VrrpEtcdPath = None"
  using assms
  by (simp add: VrrpStateDelete_def VrrpStateDelete_locked_def Kvs_def go_delete_def
      json_Marshal_empty_object conn_Delete_def Let_def)

subsection \<open>The loops of \<open>VrrpJsonConfig\<close>\<close>

lemma stop_process_heap:
  "heap (stop_process r w) = (heap w)(r := (heap w r)\<lparr>Process := None\<rparr>)"
  by (auto simp: stop_process_def Let_def split: option.splits)

lemma stop_process_frame [simp]:
  "VrrpInstanceMap (stop_process r w) = VrrpInstanceMap w"
  "next_ref (stop_process r w) = next_ref w"
  "next_handle (stop_process r w) = next_handle w"
  "refs (stop_process r w) vrf = refs w vrf"
  "IfName (heap (stop_process r w) r') = IfName (heap w r')"
  "VrId (heap (stop_process r w) r') = VrId (heap w r')"
  "Process (heap (stop_process r w) r) = None"
  "r' \<noteq> r \<Longrightarrow> heap (stop_process r w) r' = heap w r'"
  by (simp_all add: stop_process_def Let_def refs_def split: option.splits)

lemma stop_process_calls [simp]:
  "calls state_deletion (stop_process r w) = calls state_deletion w"
  "calls registered (stop_process r w) = calls registered w"
  "calls exec_line (stop_process r w) = calls exec_line w"
  "calls created (stop_process r w) = calls created w"
  "calls cli_call (stop_process r w) = calls cli_call w"
  "calls unregistered (stop_process r w) =
     calls unregistered w @ (case Process (heap w r) of None \<Rightarrow> [] | Some h \<Rightarrow> [h])"
  by (simp_all add: stop_process_def Let_def split: option.splits)

lemma stop_process_processes [simp]:
  "processes (stop_process r w) =
     (case Process (heap w r) of None \<Rightarrow> processes w
      | Some h \<Rightarrow> filter (\<lambda>(h', _). h' \<noteq> h) (processes w))"
  by (simp add: stop_process_def Let_def split: option.splits)

lemma clear_loop_frame [simp]:
  "VrrpInstanceMap (clear_loop env rs w) = VrrpInstanceMap w"
  "next_ref (clear_loop env rs w) = next_ref w"
  "next_handle (clear_loop env rs w) = next_handle w"
  "IfName (heap (clear_loop env rs w) r) = IfName (heap w r)"
  "VrId (heap (clear_loop env rs w) r) = VrId (heap w r)"
proof (induction rs arbitrary: w)
  case Nil
  { case 1 show ?case by simp }
  { case 2 show ?case by simp }
  { case 3 show ?case by simp }
  { case 4 show ?case by simp }
  { case 5 show ?case by simp }
next
  case (Cons x rs)
  { case 1 show ?case by (cases x) (simp_all add: Cons.IH Let_def) }
  { case 2 show ?case by (cases x) (simp_all add: Cons.IH Let_def) }
  { case 3 show ?case by (cases x) (simp_all add: Cons.IH Let_def) }
  { case 4 show ?case by (cases x) (simp_all add: Cons.IH Let_def) }
  { case 5 show ?case by (cases x) (simp_all add: Cons.IH Let_def) }
qed

lemma clear_loop_refs [simp]: "refs (clear_loop env rs w) vrf = refs w vrf"
  by (simp add: refs_def)

text \<open>The interfaces of the instances a list of pointers addresses.\<close>

lemma IfName_instances_cong:
  assumes "\<And>r. IfName (h' r) = IfName (h r)"
  shows "map IfName (instances (map (map_option h') rs)) =
         map IfName (instances (map (map_option h) rs))"
proof (induction rs)
  case Nil
  show ?case by simp
next
  case (Cons x rs)
  then show ?case by (cases x) (simp_all add: assms)
qed

lemma clear_loop_state_deletion:
  "calls state_deletion (clear_loop env rs w) =
     calls state_deletion w @ map IfName (instances (map (map_option (heap w)) rs))"
proof (induction rs arbitrary: w)
  case Nil
  show ?case by simp
next
  case (Cons x rs)
  show ?case
  proof (cases x)
    case None
    then show ?thesis by (simp add: Cons.IH)
  next
    case (Some r)
    let ?w2 = "VrrpStateDelete env (IfName (heap (stop_process r w) r)) (stop_process r w)"
    have "map IfName (instances (map (map_option (heap ?w2)) rs)) =
          map IfName (instances (map (map_option (heap w)) rs))"
      by (rule IfName_instances_cong) simp
    with Some show ?thesis by (simp add: Cons.IH Let_def)
  qed
qed

lemma clear_loop_calls [simp]:
  "calls registered (clear_loop env rs w) = calls registered w"
  "calls created (clear_loop env rs w) = calls created w"
  "calls exec_line (clear_loop env rs w) = calls exec_line w"
  "calls cli_call (clear_loop env rs w) = calls cli_call w"
proof (induction rs arbitrary: w)
  case Nil
  { case 1 show ?case by simp }
  { case 2 show ?case by simp }
  { case 3 show ?case by simp }
  { case 4 show ?case by simp }
next
  case (Cons x rs)
  { case 1 show ?case by (cases x) (simp_all add: Cons.IH Let_def) }
  { case 2 show ?case by (cases x) (simp_all add: Cons.IH Let_def) }
  { case 3 show ?case by (cases x) (simp_all add: Cons.IH Let_def) }
  { case 4 show ?case by (cases x) (simp_all add: Cons.IH Let_def) }
qed

subsection \<open>Starting the instances\<close>

lemma VrrpServerExec_frame [simp]:
  "VrrpInstanceMap (snd (VrrpServerExec env vrrp vrf w)) = VrrpInstanceMap w"
  "heap (snd (VrrpServerExec env vrrp vrf w)) = heap w"
  "next_ref (snd (VrrpServerExec env vrrp vrf w)) = next_ref w"
  "refs (snd (VrrpServerExec env vrrp vrf w)) vrf' = refs w vrf'"
  by (simp_all add: VrrpServerExec_def VrrpServerStart_def Let_def refs_def)

text \<open>\<open>VrrpServerExec\<close> returns nil exactly when \<open>os.Create\<close> fails.\<close>

lemma VrrpServerExec_created [simp]:
  "calls created (snd (VrrpServerExec env vrrp vrf w)) =
     calls created w @ [(configFile vrrp, fst (VrrpServerExec env vrrp vrf w) \<noteq> None)]"
  by (simp add: VrrpServerExec_def VrrpServerStart_def configFile_def Let_def)

lemma VrrpServerExec_calls [simp]:
  "calls state_deletion (snd (VrrpServerExec env vrrp vrf w)) = calls state_deletion w"
  "calls cli_call (snd (VrrpServerExec env vrrp vrf w)) = calls cli_call w"
  "calls exec_line (snd (VrrpServerExec env vrrp vrf w)) = calls exec_line w"
  "calls unregistered (snd (VrrpServerExec env vrrp vrf w)) = calls unregistered w"
  by (simp_all add: VrrpServerExec_def VrrpServerStart_def Let_def)

lemma start_instance_frame [simp]:
  "refs (start_instance env vrf vrrp w) vrf = refs w vrf @ [Some (next_ref w)]"
  "vrf' \<noteq> vrf \<Longrightarrow> refs (start_instance env vrf vrrp w) vrf' = refs w vrf'"
  "next_ref (start_instance env vrf vrrp w) = Suc (next_ref w)"
  "r \<noteq> next_ref w \<Longrightarrow> heap (start_instance env vrf vrrp w) r = heap w r"
  "IfName (heap (start_instance env vrf vrrp w) (next_ref w)) = Interface vrrp"
  "VrId (heap (start_instance env vrf vrrp w) (next_ref w)) = Vrid vrrp"
  by (simp_all add: start_instance_def Let_def case_prod_beta)

lemma start_instance_created:
  "calls created (start_instance env vrf vrrp w) =
     calls created w @
     [(configFile vrrp, Process (heap (start_instance env vrf vrrp w) (next_ref w)) \<noteq> None)]"
  by (simp add: start_instance_def Let_def case_prod_beta)

lemma start_instance_calls [simp]:
  "calls state_deletion (start_instance env vrf vrrp w) = calls state_deletion w"
  "calls cli_call (start_instance env vrf vrrp w) = calls cli_call w"
  "calls exec_line (start_instance env vrf vrrp w) = calls exec_line w"
  by (simp_all add: start_instance_def Let_def case_prod_beta)

text \<open>
  The loop allocates one instance per definition, at consecutive addresses, leaves
  the instances allocated before as they were, appends the new pointers to the slot in
  order, and attempts one \<open>os.Create\<close> per definition; each new instance has the
  interface and the id of its definition, and a handle when that call succeeded.
\<close>

lemma start_loop_heap:
  "next_ref w \<le> next_ref (start_loop env vrf defs w) \<and>
   (\<forall>r < next_ref w. heap (start_loop env vrf defs w) r = heap w r)"
proof (induction defs arbitrary: w)
  case Nil
  show ?case by simp
next
  case (Cons v defs)
  let ?w1 = "start_instance env vrf v w"
  have "next_ref ?w1 \<le> next_ref (start_loop env vrf defs ?w1)"
    using Cons.IH [of ?w1] by blast
  moreover have "heap (start_loop env vrf defs ?w1) r = heap w r" if "r < next_ref w" for r
    using Cons.IH [of ?w1] that by simp
  ultimately show ?case by simp
qed

lemma start_loop_slot:
  "\<exists>rs. length rs = length defs \<and>
     refs (start_loop env vrf defs w) vrf = refs w vrf @ map Some rs \<and>
     map (\<lambda>r. (IfName (heap (start_loop env vrf defs w) r),
                VrId (heap (start_loop env vrf defs w) r))) rs =
       map (\<lambda>v. (Interface v, Vrid v)) defs \<and>
     calls created (start_loop env vrf defs w) =
       calls created w @
       zip (map configFile defs)
           (map (\<lambda>r. Process (heap (start_loop env vrf defs w) r) \<noteq> None) rs)"
proof (induction defs arbitrary: w)
  case Nil
  show ?case by simp
next
  case (Cons v defs)
  let ?w1 = "start_instance env vrf v w"
  let ?w' = "start_loop env vrf defs ?w1"
  let ?n = "next_ref w"
  obtain rs where rs: "length rs = length defs"
    "refs ?w' vrf = refs ?w1 vrf @ map Some rs"
    "map (\<lambda>r. (IfName (heap ?w' r), VrId (heap ?w' r))) rs =
       map (\<lambda>v. (Interface v, Vrid v)) defs"
    "calls created ?w' = calls created ?w1 @
       zip (map configFile defs) (map (\<lambda>r. Process (heap ?w' r) \<noteq> None) rs)"
    using Cons.IH [of ?w1] by blast
  have here: "heap ?w' ?n = heap ?w1 ?n"
    using start_loop_heap [of ?w1 env vrf defs] by simp
  have ids: "IfName (heap ?w' ?n) = Interface v" "VrId (heap ?w' ?n) = Vrid v"
    by (simp_all only: here start_instance_frame)
  have c: "calls created ?w1 =
      calls created w @ [(configFile v, Process (heap ?w' ?n) \<noteq> None)]"
    unfolding here by (rule start_instance_created)
  have "length (?n # rs) = length (v # defs) \<and>
    refs (start_loop env vrf (v # defs) w) vrf = refs w vrf @ map Some (?n # rs) \<and>
    map (\<lambda>r. (IfName (heap (start_loop env vrf (v # defs) w) r),
               VrId (heap (start_loop env vrf (v # defs) w) r))) (?n # rs) =
      map (\<lambda>v. (Interface v, Vrid v)) (v # defs) \<and>
    calls created (start_loop env vrf (v # defs) w) =
      calls created w @
      zip (map configFile (v # defs))
          (map (\<lambda>r. Process (heap (start_loop env vrf (v # defs) w) r) \<noteq> None) (?n # rs))"
    using rs ids c by simp
  then show ?case by (rule exI)
qed

lemma start_loop_calls [simp]:
  "calls state_deletion (start_loop env vrf defs w) = calls state_deletion w"
  "calls cli_call (start_loop env vrf defs w) = calls cli_call w"
  "calls exec_line (start_loop env vrf defs w) = calls exec_line w"
  by (induction defs arbitrary: w) simp_all

text \<open>
  After a successful decode on a path of three segments or more, the result is the
  second loop run on the world the first loop leaves, with the slot reset.
\<close>

lemma VrrpJsonConfig_decoded:
  assumes "json_Unmarshal env str = Inr j" and "mapstructure_Decode env j = Inr defs"
    and "3 \<le> length path"
  shows "VrrpJsonConfig env path str w =
     (None, start_loop env (path ! 2) defs
        (set_slot (path ! 2) [] (clear_loop env (refs w (path ! 2)) w)))"
  using assms by (cases defs) (simp_all add: VrrpJsonConfig_def Let_def)

text \<open>
  The slot after such a call: one instance per definition, with the interface and the
  id of the definition, and one \<open>os.Create\<close> per definition, which succeeded where the
  instance has a handle.
\<close>

lemma VrrpJsonConfig_slot:
  assumes "json_Unmarshal env str = Inr j" and "mapstructure_Decode env j = Inr defs"
    and "3 \<le> length path"
  shows "\<exists>rs. length rs = length defs \<and>
           slot (snd (VrrpJsonConfig env path str w)) (path ! 2) =
             map (\<lambda>r. Some (heap (snd (VrrpJsonConfig env path str w)) r)) rs \<and>
           map (\<lambda>r. (IfName (heap (snd (VrrpJsonConfig env path str w)) r),
                      VrId (heap (snd (VrrpJsonConfig env path str w)) r))) rs =
             map (\<lambda>v. (Interface v, Vrid v)) defs \<and>
           calls created (snd (VrrpJsonConfig env path str w)) =
             calls created w @
             zip (map configFile defs)
                 (map (\<lambda>r. Process (heap (snd (VrrpJsonConfig env path str w)) r) \<noteq> None) rs)"
proof -
  let ?w2 = "set_slot (path ! 2) [] (clear_loop env (refs w (path ! 2)) w)"
  let ?w' = "start_loop env (path ! 2) defs ?w2"
  have w': "snd (VrrpJsonConfig env path str w) = ?w'"
    by (simp add: VrrpJsonConfig_decoded [OF assms])
  obtain rs where rs: "length rs = length defs"
    "refs ?w' (path ! 2) = refs ?w2 (path ! 2) @ map Some rs"
    "map (\<lambda>r. (IfName (heap ?w' r), VrId (heap ?w' r))) rs =
       map (\<lambda>v. (Interface v, Vrid v)) defs"
    "calls created ?w' = calls created ?w2 @
       zip (map configFile defs) (map (\<lambda>r. Process (heap ?w' r) \<noteq> None) rs)"
    using start_loop_slot [of defs env "path ! 2" ?w2] by blast
  have "length rs = length defs \<and>
        slot ?w' (path ! 2) = map (\<lambda>r. Some (heap ?w' r)) rs \<and>
        map (\<lambda>r. (IfName (heap ?w' r), VrId (heap ?w' r))) rs =
          map (\<lambda>v. (Interface v, Vrid v)) defs \<and>
        calls created ?w' = calls created w @
          zip (map configFile defs) (map (\<lambda>r. Process (heap ?w' r) \<noteq> None) rs)"
    using rs by (simp add: slot_def comp_def)
  then show ?thesis
    unfolding w' by (rule exI)
qed

subsection \<open>The commit and the reconciliations it makes\<close>

text \<open>
  A reconciliation allocates above the instances there are, leaves their interface and
  id as they are, makes no call to the CLI, and only adds state deletions.
\<close>

lemma VrrpJsonConfig_grows:
  "next_ref w \<le> next_ref (snd (VrrpJsonConfig env path str w)) \<and>
   (\<forall>r < next_ref w.
      IfName (heap (snd (VrrpJsonConfig env path str w)) r) = IfName (heap w r) \<and>
      VrId (heap (snd (VrrpJsonConfig env path str w)) r) = VrId (heap w r)) \<and>
   calls cli_call (snd (VrrpJsonConfig env path str w)) = calls cli_call w \<and>
   (\<exists>xs. calls state_deletion (snd (VrrpJsonConfig env path str w)) =
      calls state_deletion w @ xs)"
proof (cases "\<exists>j defs. json_Unmarshal env str = Inr j \<and> mapstructure_Decode env j = Inr defs \<and>
    3 \<le> length path")
  case True
  then obtain j defs where d: "json_Unmarshal env str = Inr j"
    "mapstructure_Decode env j = Inr defs" "3 \<le> length path"
    by blast
  let ?w2 = "set_slot (path ! 2) [] (clear_loop env (refs w (path ! 2)) w)"
  have h: "next_ref ?w2 \<le> next_ref (start_loop env (path ! 2) defs ?w2)"
    "\<And>r. r < next_ref ?w2 \<Longrightarrow> heap (start_loop env (path ! 2) defs ?w2) r = heap ?w2 r"
    using start_loop_heap [of ?w2 env "path ! 2" defs] by simp_all
  show ?thesis
    using h by (simp add: VrrpJsonConfig_decoded [OF d] clear_loop_state_deletion)
next
  case False
  then have "snd (VrrpJsonConfig env path str w) = w"
    by (auto simp: VrrpJsonConfig_def split: sum.splits)
  then show ?thesis by simp
qed

lemma reconcile_simps [simp]:
  "reconcile env [] w = w"
  "reconcile env (c # cs) w = reconcile env cs (snd (VrrpJsonConfig env (fst c) (snd c) w))"
  by (simp_all add: reconcile_def case_prod_beta)

lemma reconcile_grows:
  "next_ref w \<le> next_ref (reconcile env cs w) \<and>
   (\<forall>r < next_ref w.
      IfName (heap (reconcile env cs w) r) = IfName (heap w r) \<and>
      VrId (heap (reconcile env cs w) r) = VrId (heap w r)) \<and>
   calls cli_call (reconcile env cs w) = calls cli_call w \<and>
   (\<exists>xs. calls state_deletion (reconcile env cs w) = calls state_deletion w @ xs)"
proof (induction cs arbitrary: w)
  case Nil
  show ?case by simp
next
  case (Cons c cs)
  let ?w1 = "snd (VrrpJsonConfig env (fst c) (snd c) w)"
  note a = VrrpJsonConfig_grows [of w env "fst c" "snd c"]
  note b = Cons.IH [of ?w1]
  from a b have "next_ref w \<le> next_ref (reconcile env cs ?w1)"
    by linarith
  moreover have "IfName (heap (reconcile env cs ?w1) r) = IfName (heap w r) \<and>
      VrId (heap (reconcile env cs ?w1) r) = VrId (heap w r)" if "r < next_ref w" for r
  proof -
    from a that have "r < next_ref ?w1" by linarith
    with a b that show ?thesis by simp
  qed
  moreover from a b have "calls cli_call (reconcile env cs ?w1) = calls cli_call w"
    by simp
  moreover from a b have "\<exists>xs. calls state_deletion (reconcile env cs ?w1) =
      calls state_deletion w @ xs"
    by auto
  ultimately show ?case by simp
qed

lemma Commit_grows:
  "next_ref w \<le> next_ref (Commit env w)"
  "r < next_ref w \<Longrightarrow> IfName (heap (Commit env w) r) = IfName (heap w r)"
  "r < next_ref w \<Longrightarrow> VrId (heap (Commit env w) r) = VrId (heap w r)"
  "calls cli_call (Commit env w) = calls cli_call w @ [E_Commit]"
  "\<exists>xs. calls state_deletion (Commit env w) = calls state_deletion w @ xs"
  using reconcile_grows [of "emit E_Commit w" env "Commit_calls env (calls cli_call (emit E_Commit w))"]
  by (simp_all add: Commit_def Let_def)

text \<open>A commit that makes no reconciliation is the call and nothing more.\<close>

lemma Commit_no_calls:
  "Commit_calls env (calls cli_call w @ [E_Commit]) = [] \<Longrightarrow> Commit env w = emit E_Commit w"
  by (simp add: Commit_def Let_def)

text \<open>
  Neither loop of a reconciliation, and so no commit, gives a handle to an instance
  allocated before or takes one away without unregistering its process.
\<close>

lemma stopped_or_kept_same:
  "calls unregistered w' = calls unregistered w \<Longrightarrow> Process (heap w' r) = Process (heap w r) \<Longrightarrow>
   stopped_or_kept w w' r"
  by (simp add: stopped_or_kept_def)

lemma stopped_or_kept_trans:
  assumes "stopped_or_kept w w1 r" and "stopped_or_kept w1 w2 r"
  shows "stopped_or_kept w w2 r"
proof -
  from assms(1) obtain us where us: "calls unregistered w1 = calls unregistered w @ us"
    "Process (heap w1 r) = Process (heap w r) \<or>
     Process (heap w1 r) = None \<and> (\<exists>h. Process (heap w r) = Some h \<and> h \<in> set us)"
    unfolding stopped_or_kept_def by blast
  from assms(2) obtain vs where vs: "calls unregistered w2 = calls unregistered w1 @ vs"
    "Process (heap w2 r) = Process (heap w1 r) \<or>
     Process (heap w2 r) = None \<and> (\<exists>h. Process (heap w1 r) = Some h \<and> h \<in> set vs)"
    unfolding stopped_or_kept_def by blast
  have "calls unregistered w2 = calls unregistered w @ (us @ vs)"
    by (simp add: us(1) vs(1))
  moreover from us(2) vs(2)
  have "Process (heap w2 r) = Process (heap w r) \<or>
     Process (heap w2 r) = None \<and> (\<exists>h. Process (heap w r) = Some h \<and> h \<in> set (us @ vs))"
    by (cases "Process (heap w r)") auto
  ultimately show ?thesis
    unfolding stopped_or_kept_def by blast
qed

lemma stopped_or_kept_grows:
  "stopped_or_kept w w' r \<Longrightarrow> \<exists>us. calls unregistered w' = calls unregistered w @ us"
  unfolding stopped_or_kept_def by blast

lemma stop_process_kept: "stopped_or_kept w (stop_process r' w) r"
proof (cases "Process (heap w r')")
  case None
  then have "stop_process r' w = w" by (simp add: stop_process_def)
  then show ?thesis by (simp add: stopped_or_kept_same)
next
  case (Some h)
  then have u: "calls unregistered (stop_process r' w) = calls unregistered w @ [h]"
    by simp
  show ?thesis
  proof (cases "r = r'")
    case True
    with Some u show ?thesis by (simp add: stopped_or_kept_def)
  next
    case False
    with u show ?thesis by (simp add: stopped_or_kept_def)
  qed
qed

lemma clear_loop_kept: "stopped_or_kept w (clear_loop env rs w) r"
proof (induction rs arbitrary: w)
  case Nil
  show ?case by (simp add: stopped_or_kept_same)
next
  case (Cons x rs)
  show ?case
  proof (cases x)
    case None
    then show ?thesis by (simp add: Cons.IH)
  next
    case (Some r')
    let ?w1 = "stop_process r' w"
    let ?w2 = "VrrpStateDelete env (IfName (heap ?w1 r')) ?w1"
    have "stopped_or_kept ?w1 ?w2 r" by (simp add: stopped_or_kept_same)
    with stop_process_kept have "stopped_or_kept w ?w2 r" by (rule stopped_or_kept_trans)
    then have "stopped_or_kept w (clear_loop env rs ?w2) r"
      using Cons.IH by (rule stopped_or_kept_trans)
    with Some show ?thesis by (simp add: Let_def)
  qed
qed

lemma start_unregistered [simp]:
  "calls unregistered (start_instance env vrf vrrp w) = calls unregistered w"
  "calls unregistered (start_loop env vrf defs w) = calls unregistered w"
proof -
  show a: "calls unregistered (start_instance env vrf vrrp w) = calls unregistered w" for vrrp w
    by (simp add: start_instance_def Let_def case_prod_beta)
  show "calls unregistered (start_loop env vrf defs w) = calls unregistered w"
    by (induction defs arbitrary: w) (simp_all add: a)
qed

lemma VrrpJsonConfig_kept:
  assumes "r < next_ref w"
  shows "stopped_or_kept w (snd (VrrpJsonConfig env path str w)) r"
proof (cases "\<exists>j defs. json_Unmarshal env str = Inr j \<and> mapstructure_Decode env j = Inr defs \<and>
    3 \<le> length path")
  case True
  then obtain j defs where d: "json_Unmarshal env str = Inr j"
    "mapstructure_Decode env j = Inr defs" "3 \<le> length path"
    by blast
  let ?w1 = "clear_loop env (refs w (path ! 2)) w"
  let ?w2 = "set_slot (path ! 2) [] ?w1"
  have "heap (start_loop env (path ! 2) defs ?w2) r = heap ?w2 r"
    using start_loop_heap [of ?w2 env "path ! 2" defs] assms by simp
  then have "stopped_or_kept ?w1 (start_loop env (path ! 2) defs ?w2) r"
    by (simp add: stopped_or_kept_same)
  with clear_loop_kept have "stopped_or_kept w (start_loop env (path ! 2) defs ?w2) r"
    by (rule stopped_or_kept_trans)
  then show ?thesis by (simp add: VrrpJsonConfig_decoded [OF d])
next
  case False
  then have "snd (VrrpJsonConfig env path str w) = w"
    by (auto simp: VrrpJsonConfig_def split: sum.splits)
  then show ?thesis by (simp add: stopped_or_kept_same)
qed

lemma reconcile_kept:
  "r < next_ref w \<Longrightarrow> stopped_or_kept w (reconcile env cs w) r"
proof (induction cs arbitrary: w)
  case Nil
  show ?case by (simp add: stopped_or_kept_same)
next
  case (Cons c cs)
  let ?w1 = "snd (VrrpJsonConfig env (fst c) (snd c) w)"
  have "r < next_ref ?w1"
    using VrrpJsonConfig_grows [of w env "fst c" "snd c"] Cons.prems by linarith
  then have "stopped_or_kept ?w1 (reconcile env cs ?w1) r" by (rule Cons.IH)
  with VrrpJsonConfig_kept [OF Cons.prems] have "stopped_or_kept w (reconcile env cs ?w1) r"
    by (rule stopped_or_kept_trans)
  then show ?case by simp
qed

lemma Commit_kept:
  assumes "r < next_ref w"
  shows "stopped_or_kept w (Commit env w) r"
proof -
  have "stopped_or_kept w (emit E_Commit w) r" by (simp add: stopped_or_kept_same)
  moreover have "stopped_or_kept (emit E_Commit w) (Commit env w) r"
    using reconcile_kept [of r "emit E_Commit w" env] assms by (simp add: Commit_def Let_def)
  ultimately show ?thesis by (rule stopped_or_kept_trans)
qed

subsection \<open>The loop of \<open>VrrpVrfDelete\<close>\<close>

lemma delete_loop_Cons:
  "delete_loop env vrfId (x # xs) w = delete_loop env vrfId xs (delete_loop env vrfId [x] w)"
  by (cases x) (simp_all add: Let_def)

text \<open>
  One round of the loop, on an instance allocated before: the delete line for its id,
  the commit, and, after what the commit did, the state deletion for its interface.
\<close>

lemma delete_round:
  assumes "r < next_ref w"
  shows "next_ref w \<le> next_ref (delete_loop env vrfId [Some r] w)"
    and "\<And>r'. r' < next_ref w \<Longrightarrow>
           IfName (heap (delete_loop env vrfId [Some r] w) r') = IfName (heap w r') \<and>
           VrId (heap (delete_loop env vrfId [Some r] w) r') = VrId (heap w r')"
    and "calls cli_call (delete_loop env vrfId [Some r] w) =
           calls cli_call w @ [E_ExecLine (delete_line vrfId (VrId (heap w r))), E_Commit]"
    and "\<exists>xs. calls state_deletion (delete_loop env vrfId [Some r] w) =
           calls state_deletion w @ xs @ [IfName (heap w r)]"
proof -
  let ?w2 = "ExecLine (delete_line vrfId (VrId (heap w r))) (stop_process r w)"
  let ?w3 = "Commit env ?w2"
  have ids: "IfName (heap ?w3 r') = IfName (heap w r') \<and> VrId (heap ?w3 r') = VrId (heap w r')"
    if "r' < next_ref w" for r'
    using Commit_grows(2,3) [where r = r' and w = ?w2 and env = env] that by simp
  show "next_ref w \<le> next_ref (delete_loop env vrfId [Some r] w)"
    using Commit_grows(1) [where w = ?w2 and env = env] by (simp add: Let_def)
  show "\<And>r'. r' < next_ref w \<Longrightarrow>
           IfName (heap (delete_loop env vrfId [Some r] w) r') = IfName (heap w r') \<and>
           VrId (heap (delete_loop env vrfId [Some r] w) r') = VrId (heap w r')"
    using ids by (simp add: Let_def)
  show "calls cli_call (delete_loop env vrfId [Some r] w) =
           calls cli_call w @ [E_ExecLine (delete_line vrfId (VrId (heap w r))), E_Commit]"
    by (simp add: Let_def Commit_grows(4))
  obtain xs where "calls state_deletion ?w3 = calls state_deletion ?w2 @ xs"
    using Commit_grows(5) [where w = ?w2 and env = env] by blast
  then have "calls state_deletion (delete_loop env vrfId [Some r] w) =
           calls state_deletion w @ xs @ [IfName (heap w r)]"
    using ids [OF assms] by (simp add: Let_def)
  then show "\<exists>xs. calls state_deletion (delete_loop env vrfId [Some r] w) =
           calls state_deletion w @ xs @ [IfName (heap w r)]"
    by (rule exI)
qed

text \<open>
  A round of the loop unregisters the process of its instance, if it has one; so of
  two instances, the process of either is unregistered by the end of the two rounds: in
  its own round, or before it by a commit.
\<close>

lemma delete_round_kept:
  assumes "r' < next_ref w"
  shows "stopped_or_kept w (delete_loop env vrfId [Some r] w) r'"
proof -
  let ?w1 = "stop_process r w"
  let ?w2 = "ExecLine (delete_line vrfId (VrId (heap ?w1 r))) ?w1"
  let ?w3 = "Commit env ?w2"
  let ?w4 = "VrrpStateDelete env (IfName (heap ?w3 r)) ?w3"
  have "stopped_or_kept ?w1 ?w2 r'" by (simp add: stopped_or_kept_same)
  with stop_process_kept have "stopped_or_kept w ?w2 r'" by (rule stopped_or_kept_trans)
  moreover have "stopped_or_kept ?w2 ?w3 r'" using assms by (simp add: Commit_kept)
  ultimately have "stopped_or_kept w ?w3 r'" by (rule stopped_or_kept_trans)
  moreover have "stopped_or_kept ?w3 ?w4 r'" by (simp add: stopped_or_kept_same)
  ultimately have "stopped_or_kept w ?w4 r'" by (rule stopped_or_kept_trans)
  then show ?thesis by (simp add: Let_def)
qed

lemma delete_round_stops:
  assumes "r < next_ref w" and "Process (heap w r) = Some h"
  shows "\<exists>us. calls unregistered (delete_loop env vrfId [Some r] w) = calls unregistered w @ us \<and>
           h \<in> set us"
proof -
  let ?w1 = "stop_process r w"
  let ?w2 = "ExecLine (delete_line vrfId (VrId (heap ?w1 r))) ?w1"
  let ?w3 = "Commit env ?w2"
  have "calls unregistered ?w2 = calls unregistered w @ [h]"
    using assms(2) by simp
  moreover obtain us where "calls unregistered ?w3 = calls unregistered ?w2 @ us"
    using stopped_or_kept_grows [OF Commit_kept [of r ?w2 env]] assms(1) by auto
  ultimately have "calls unregistered (delete_loop env vrfId [Some r] w) =
      calls unregistered w @ ([h] @ us) \<and> h \<in> set ([h] @ us)"
    by (simp add: Let_def)
  then show ?thesis by (rule exI)
qed

lemma two_rounds_stop:
  assumes "ra < next_ref w" and "rb < next_ref w"
    and "Process (heap w ra) = Some h \<or> Process (heap w rb) = Some h"
  shows "\<exists>us. calls unregistered (delete_loop env vrfId [Some rb] (delete_loop env vrfId [Some ra] w)) =
           calls unregistered w @ us \<and> h \<in> set us"
proof -
  let ?w1 = "delete_loop env vrfId [Some ra] w"
  let ?w2 = "delete_loop env vrfId [Some rb] ?w1"
  have rb1: "rb < next_ref ?w1"
    using delete_round(1) [OF assms(1), of env vrfId] assms(2) by linarith
  obtain us where us: "calls unregistered ?w1 = calls unregistered w @ us"
    "Process (heap ?w1 rb) = Process (heap w rb) \<or>
     Process (heap ?w1 rb) = None \<and> (\<exists>h. Process (heap w rb) = Some h \<and> h \<in> set us)"
    using delete_round_kept [OF assms(2), of env vrfId ra] unfolding stopped_or_kept_def by blast
  obtain vs where vs: "calls unregistered ?w2 = calls unregistered ?w1 @ vs"
    using stopped_or_kept_grows [OF delete_round_kept [OF rb1, of env vrfId rb]] by blast
  have "h \<in> set (us @ vs)"
  proof (cases "Process (heap w ra) = Some h")
    case True
    obtain us' where "calls unregistered ?w1 = calls unregistered w @ us'" "h \<in> set us'"
      using delete_round_stops [OF assms(1) True, of env vrfId] by blast
    with us(1) show ?thesis by simp
  next
    case False
    with assms(3) have b: "Process (heap w rb) = Some h" by simp
    show ?thesis
    proof (cases "Process (heap ?w1 rb) = Some h")
      case True
      obtain vs' where "calls unregistered ?w2 = calls unregistered ?w1 @ vs'" "h \<in> set vs'"
        using delete_round_stops [OF rb1 True, of env vrfId] by blast
      with vs show ?thesis by simp
    next
      case False
      with us(2) b show ?thesis by auto
    qed
  qed
  moreover have "calls unregistered ?w2 = calls unregistered w @ (us @ vs)"
    by (simp only: us(1) vs append_assoc)
  ultimately show ?thesis by blast
qed

subsection \<open>Evaluation on the examples\<close>

lemma outcomes_fields [simp]:
  "outcomes (advance w) = tl (outcomes w)"
  by (simp add: advance_def)

lemma outcomes_Nil [simp]:
  "outcomes w = [] \<Longrightarrow> outcomes (VrrpStateDelete env ifName w) = []"
  "outcomes (stop_process r w) = outcomes w"
  "outcomes w = [] \<Longrightarrow> outcomes (snd (VrrpServerExec env vrrp vrf w)) = []"
  by (simp_all add: VrrpStateDelete_def VrrpStateDelete_locked_def conn_Put_def conn_Delete_def
      stop_process_def VrrpServerExec_def VrrpServerStart_def Let_def
      split: sum.splits option.splits)

lemma empty_world_fields [simp]:
  "VrrpInstanceMap empty_world = Map.empty"
  "heap empty_world = (\<lambda>r. zero_instance)"
  "next_ref empty_world = 0"
  "processes empty_world = []"
  "next_handle empty_world = 0"
  "etcd empty_world = Map.empty"
  "trace empty_world = []"
  "outcomes empty_world = []"
  "calls f empty_world = []"
  "refs empty_world vrf = []"
  by (simp_all add: empty_world_def calls_def refs_def List.map_filter_def)

lemma two_instance_world_fields [simp]:
  "refs two_instance_world ''vrf3'' = [Some 0, Some 1]"
  "refs nil_first_world ''vrf3'' = [Some 1, Some 0]"
  "heap two_instance_world 0 = \<lparr>IfName = ''eth0'', VrId = 1, Process = Some 0\<rparr>"
  "heap two_instance_world (Suc 0) = \<lparr>IfName = ''eth1'', VrId = 2, Process = None\<rparr>"
  "heap nil_first_world = heap two_instance_world"
  "next_ref two_instance_world = 2"
  "next_ref nil_first_world = 2"
  "next_handle two_instance_world = 1"
  "processes two_instance_world = [(0, keepalived ''eth0'' ''vrf3'')]"
  "processes nil_first_world = [(0, keepalived ''eth0'' ''vrf3'')]"
  "outcomes two_instance_world = []"
  "outcomes nil_first_world = []"
  "calls f two_instance_world = []"
  "calls f nil_first_world = []"
  by (simp_all add: two_instance_world_def nil_first_world_def refs_def calls_def
      List.map_filter_def)

lemma example_decodes:
  "json_Unmarshal example_env ''[{},{}]'' = Inr ''[{},{}]''"
  "mapstructure_Decode example_env ''[{},{}]'' = Inr [zero_Vrrp, zero_Vrrp]"
  "json_Unmarshal example_env ''[]'' = Inr ''[]''"
  "mapstructure_Decode example_env ''[]'' = Inr []"
  by (simp_all add: example_env_def)

lemma reentrant_decodes:
  "json_Unmarshal reentrant_env eth1_document = Inr eth1_document"
  "mapstructure_Decode reentrant_env eth1_document = Inr [eth1_definition]"
  "json_Unmarshal reentrant_env ''[]'' = Inr ''[]''"
  "mapstructure_Decode reentrant_env ''[]'' = Inr []"
  by (simp_all add: reentrant_env_def example_env_def eth1_document_def)

lemma decimal_examples:
  "string_of_nat 0 = ''0''" "string_of_nat (Suc 0) = ''1''" "string_of_nat 1 = ''1''"
  "string_of_nat 2 = ''2''" "string_of_int 3 = ''3''" "string_of_int 100 = ''100''"
  by (simp_all add: string_of_int_def string_of_nat.simps digit_char_def)

lemmas run_defs = VrrpServerExec_def VrrpServerStart_def start_instance_def next_ok_def
  slot_def has_handle_def nil_handle_def Let_def case_prod_beta

section \<open>The claims\<close>

text \<open>
  C1.  Claim: \<open>VrrpStateDelete\<close> treats a missing state key as an empty mapping, and
  deletes the key whenever the mapping left after removing the interface is empty, so
  that the key is never left present with an empty or null value.  The code does not
  do this for a missing key: \<open>vrrpStatusMap\<close> stays the nil map, \<open>json.Marshal\<close>
  gives \<open>null\<close>, which is not \<open>{}\<close>, and \<open>null\<close> is written under the key.  The
  theorem evaluates the function on the empty store, every call succeeding.
\<close>

theorem VrrpStateDelete_missing_key_writes_null:
  "etcd (VrrpStateDelete env ''eth0'' empty_world) VrrpEtcdPath = Some ''null'' \<and>
   trace (VrrpStateDelete env ''eth0'' empty_world) =
     [E_VrrpStateDelete ''eth0'', E_New True, E_Lock lockPath ''eth0'' True,
      E_Get VrrpEtcdPath True, E_Put VrrpEtcdPath ''null'' True, E_Unlock lockPath, E_Close]"
  by (simp add: VrrpStateDelete_def VrrpStateDelete_locked_def Kvs_def go_delete_def
      json_Marshal_def conn_Put_def Let_def)

text \<open>
  C2.  A string that fails to decode, in \<open>json.Unmarshal\<close> or in
  \<open>mapstructure.Decode\<close>, makes \<open>VrrpJsonConfig\<close> return that error and leave the
  world as it was: registry, processes, store, and no call to any collaborator.
\<close>

theorem VrrpJsonConfig_decode_failure:
  assumes "json_Unmarshal env str = Inl err \<or>
           (\<exists>j. json_Unmarshal env str = Inr j \<and> mapstructure_Decode env j = Inl err)"
  shows "VrrpJsonConfig env path str w = (Some err, w)"
  using assms by (auto simp: VrrpJsonConfig_def)

theorem VrrpJsonConfig_decode_failure_witness:
  "VrrpJsonConfig example_env [''vrf'', ''name'', ''vrf3''] ''[1]'' two_instance_world =
     (Some (Error ''expected a map''), two_instance_world)"
  using VrrpJsonConfig_decode_failure [of example_env "''[1]''" "Error ''expected a map''"
      "[''vrf'', ''name'', ''vrf3'']" two_instance_world]
  by (simp add: example_env_def)

text \<open>
  C3.  Reconciling a VRF with a document that decodes to no definition, on a path of
  at least three segments, returns no error, leaves the VRF's slot empty and every
  other slot as it was, issues one state deletion for the interface of each instance
  the slot held, in order, and starts nothing: no process is registered, no
  configuration file created, no handle allocated.
\<close>

theorem VrrpJsonConfig_empty_definitions:
  assumes "json_Unmarshal env str = Inr j" and "mapstructure_Decode env j = Inr []"
    and "3 \<le> length path"
  shows "fst (VrrpJsonConfig env path str w) = None \<and>
         VrrpInstanceMap (snd (VrrpJsonConfig env path str w)) =
           (VrrpInstanceMap w)(path ! 2 \<mapsto> []) \<and>
         calls state_deletion (snd (VrrpJsonConfig env path str w)) =
           calls state_deletion w @ map IfName (instances (slot w (path ! 2))) \<and>
         calls registered (snd (VrrpJsonConfig env path str w)) = calls registered w \<and>
         calls created (snd (VrrpJsonConfig env path str w)) = calls created w \<and>
         next_handle (snd (VrrpJsonConfig env path str w)) = next_handle w"
  using assms by (simp add: VrrpJsonConfig_def Let_def clear_loop_state_deletion slot_def)

theorem VrrpJsonConfig_empty_definitions_witness:
  "fst (VrrpJsonConfig example_env [''vrf'', ''name'', ''vrf3''] ''[]'' two_instance_world) = None \<and>
   VrrpInstanceMap
     (snd (VrrpJsonConfig example_env [''vrf'', ''name'', ''vrf3''] ''[]'' two_instance_world))
     ''vrf3'' = Some [] \<and>
   calls state_deletion
     (snd (VrrpJsonConfig example_env [''vrf'', ''name'', ''vrf3''] ''[]'' two_instance_world)) =
     [''eth0'', ''eth1'']"
  using VrrpJsonConfig_empty_definitions [of example_env "''[]''" "''[]''"
      "[''vrf'', ''name'', ''vrf3'']" two_instance_world]
  by (simp add: example_decodes slot_def)




text \<open>
  C5.  The rendered configuration is the text of the first seventeen template lines,
  then the line \<open>advert_int\<close> whose value is \<open>10\<close> when the definition's
  advertisement interval is 0 and the interval in decimal otherwise, then the rest.
\<close>

theorem advert_int_rendering:
  "vrrpConfigTemplateText v =
     unlines (take 17 (vrrpConfigTemplateLines v)) @
     ''    advert_int '' @
       (if AdvertisementInterval v = 0 then ''10''
        else string_of_int (AdvertisementInterval v)) @
     [CHR 0x0A] @
     unlines (drop 18 (vrrpConfigTemplateLines v))"
  by (simp add: vrrpConfigTemplateText_def vrrpConfigTemplateLines_def unlines_def)

text \<open>
  C6.  When \<open>clientv3.New\<close> succeeds, so that \<open>VrrpStateDelete\<close> reaches the lock,
  the calls it makes are: the lock (taken or not), then only reads and writes of the
  store, then the unlock, then the close of the connection, whatever fails in between.
\<close>

theorem VrrpStateDelete_unlock_then_close:
  assumes "next_ok w"
  shows "\<exists>locked accesses.
           trace (VrrpStateDelete env ifName w) =
             trace w @ [E_VrrpStateDelete ifName, E_New True, E_Lock lockPath ifName locked] @
             accesses @ [E_Unlock lockPath, E_Close] \<and>
           list_all is_store_access accesses"
proof -
  let ?w1 = "emit (E_New True) (advance (emit (E_VrrpStateDelete ifName) w))"
  let ?w2 = "emit (E_Lock lockPath ifName (next_ok ?w1)) (advance ?w1)"
  obtain accesses where
    "trace (VrrpStateDelete_locked env ifName ?w2) = trace ?w2 @ accesses"
    "list_all is_store_access accesses"
    using locked_trace by blast
  with assms show ?thesis
    by (auto simp: VrrpStateDelete_def Let_def)
qed

theorem VrrpStateDelete_unlock_then_close_witness:
  "next_ok (empty_world\<lparr>outcomes := [True, False, False]\<rparr>) \<and>
   trace (VrrpStateDelete example_env ''eth0'' (empty_world\<lparr>outcomes := [True, False, False]\<rparr>)) =
     [E_VrrpStateDelete ''eth0'', E_New True, E_Lock lockPath ''eth0'' False,
      E_Get VrrpEtcdPath False, E_Unlock lockPath, E_Close] \<and>
   (\<exists>locked accesses.
      trace (VrrpStateDelete example_env ''eth0'' (empty_world\<lparr>outcomes := [True, False, False]\<rparr>)) =
        [E_VrrpStateDelete ''eth0'', E_New True, E_Lock lockPath ''eth0'' locked] @
        accesses @ [E_Unlock lockPath, E_Close] \<and>
      list_all is_store_access accesses)"
  using VrrpStateDelete_unlock_then_close
    [of "empty_world\<lparr>outcomes := [True, False, False]\<rparr>" example_env "''eth0''"]
  by (simp add: VrrpStateDelete_def VrrpStateDelete_locked_def next_ok_def Let_def)

text \<open>
  C7.  Claim: \<open>VrrpVrfSync\<close> for VRF 3 with the one definition \<open>{id: 1, interface:
  eth0, role: master, priority: 100}\<close>, the slot of \<open>vrf3\<close> holding one instance with
  id 2, emits exactly: delete for id 2, then the set commands for id, interface, state
  master, priority 100, then one commit.  The code emits these six calls and no other,
  with the priority before the state: what it returns is the world in which exactly
  these six calls have been made, after the reconciliations the commit makes, and those
  make no call to the CLI.
\<close>

theorem VrrpVrfSync_command_sequence:
  assumes "slot w ''vrf3'' = [Some i]" and "VrId i = 2"
  shows "VrrpVrfSync env 3 (Some \<lparr>cfg_Vrrp = [sync_definition]\<rparr>) w =
           Some (reconcile env
             (Commit_calls env (calls cli_call w @
                [E_ExecLine ''delete vrf name vrf3 vrrp 2'',
                 E_ExecLine ''set vrf name vrf3 vrrp 1'',
                 E_ExecLine ''set vrf name vrf3 vrrp 1 interface eth0'',
                 E_ExecLine ''set vrf name vrf3 vrrp 1 priority 100'',
                 E_ExecLine ''set vrf name vrf3 vrrp 1 state master'',
                 E_Commit]))
             (w\<lparr>trace := trace w @
                [E_ExecLine ''delete vrf name vrf3 vrrp 2'',
                 E_ExecLine ''set vrf name vrf3 vrrp 1'',
                 E_ExecLine ''set vrf name vrf3 vrrp 1 interface eth0'',
                 E_ExecLine ''set vrf name vrf3 vrrp 1 priority 100'',
                 E_ExecLine ''set vrf name vrf3 vrrp 1 state master'',
                 E_Commit]\<rparr>)) \<and>
         map_option (calls cli_call) (VrrpVrfSync env 3 (Some \<lparr>cfg_Vrrp = [sync_definition]\<rparr>) w) =
           Some (calls cli_call w @
                [E_ExecLine ''delete vrf name vrf3 vrrp 2'',
                 E_ExecLine ''set vrf name vrf3 vrrp 1'',
                 E_ExecLine ''set vrf name vrf3 vrrp 1 interface eth0'',
                 E_ExecLine ''set vrf name vrf3 vrrp 1 priority 100'',
                 E_ExecLine ''set vrf name vrf3 vrrp 1 state master'',
                 E_Commit])"
proof -
  from assms(1) obtain r where r: "refs w ''vrf3'' = [Some r]" "heap w r = i"
    by (cases "refs w ''vrf3''") (auto simp: slot_def)
  let ?six = "[E_ExecLine ''delete vrf name vrf3 vrrp 2'',
                 E_ExecLine ''set vrf name vrf3 vrrp 1'',
                 E_ExecLine ''set vrf name vrf3 vrrp 1 interface eth0'',
                 E_ExecLine ''set vrf name vrf3 vrrp 1 priority 100'',
                 E_ExecLine ''set vrf name vrf3 vrrp 1 state master'',
                 E_Commit]"
  have c: "calls cli_call (w\<lparr>trace := trace w @ ?six\<rparr>) = calls cli_call w @ ?six"
    by (simp add: calls_def List.map_filter_def)
  have "VrrpVrfSync env 3 (Some \<lparr>cfg_Vrrp = [sync_definition]\<rparr>) w =
      Some (reconcile env (Commit_calls env (calls cli_call w @ ?six))
              (w\<lparr>trace := trace w @ ?six\<rparr>))"
    using r assms(2) c
    by (simp add: VrrpVrfSync_def sync_vrrp_def sync_definition_def zero_Vrrp_def ExecLine_def
        Commit_def emit_def delete_line_def set_line_def decimal_examples Let_def)
  moreover have "calls cli_call (reconcile env cs (w\<lparr>trace := trace w @ ?six\<rparr>)) =
      calls cli_call w @ ?six" for cs
    using reconcile_grows [of "w\<lparr>trace := trace w @ ?six\<rparr>" env cs] c by simp
  ultimately show ?thesis by simp
qed

theorem VrrpVrfSync_command_sequence_witness:
  "map_option trace (VrrpVrfSync example_env 3 (Some \<lparr>cfg_Vrrp = [sync_definition]\<rparr>) sync_world) =
     Some [E_ExecLine ''delete vrf name vrf3 vrrp 2'',
           E_ExecLine ''set vrf name vrf3 vrrp 1'',
           E_ExecLine ''set vrf name vrf3 vrrp 1 interface eth0'',
           E_ExecLine ''set vrf name vrf3 vrrp 1 priority 100'',
           E_ExecLine ''set vrf name vrf3 vrrp 1 state master'',
           E_Commit]"
  using VrrpVrfSync_command_sequence
    [of sync_world "\<lparr>IfName = ''eth1'', VrId = 2, Process = None\<rparr>" example_env]
  by (simp add: sync_world_def slot_def refs_def example_env_def)

theorem VrrpVrfSync_claimed_order_counterexample:
  "map_option trace (VrrpVrfSync example_env 3 (Some \<lparr>cfg_Vrrp = [sync_definition]\<rparr>) sync_world) \<noteq>
     Some [E_ExecLine ''delete vrf name vrf3 vrrp 2'',
           E_ExecLine ''set vrf name vrf3 vrrp 1'',
           E_ExecLine ''set vrf name vrf3 vrrp 1 interface eth0'',
           E_ExecLine ''set vrf name vrf3 vrrp 1 state master'',
           E_ExecLine ''set vrf name vrf3 vrrp 1 priority 100'',
           E_Commit]"
  by (simp add: VrrpVrfSync_def sync_vrrp_def sync_definition_def zero_Vrrp_def ExecLine_def
      Commit_def delete_line_def set_line_def decimal_examples Let_def sync_world_def refs_def
      example_env_def)

text \<open>
  C8.  Claim: \<open>VrrpVrfDelete\<close> on a VRF whose slot holds two instances, one with a
  process handle and one with a nil handle, unregisters only the live process, emits
  exactly two delete commands and issues exactly two state deletions.  The function
  commits after each delete command, and a commit calls the reconciler, which
  unregisters processes and issues state deletions of its own.  What holds, the two
  instances in either order: the calls to the CLI are the delete command for the first
  id, a commit, the delete command for the second id, a commit, and no other; the live
  process is unregistered; a state deletion is issued for the interface of the first
  instance and, after it and last of all, one for the interface of the second; and when
  no commit calls the reconciler, the live process is the only one unregistered and
  these two state deletions are the only ones.
\<close>

theorem VrrpVrfDelete_two_instances:
  assumes "refs w (''vrf'' @ string_of_int vrfId) = [Some ra, Some rb]"
    and "ra < next_ref w" and "rb < next_ref w"
    and "Process (heap w ra) = Some h \<and> Process (heap w rb) = None \<or>
         Process (heap w ra) = None \<and> Process (heap w rb) = Some h"
  shows "calls cli_call (VrrpVrfDelete env vrfId w) =
           calls cli_call w @
           [E_ExecLine (delete_line vrfId (VrId (heap w ra))), E_Commit,
            E_ExecLine (delete_line vrfId (VrId (heap w rb))), E_Commit] \<and>
         (\<exists>us. calls unregistered (VrrpVrfDelete env vrfId w) = calls unregistered w @ us \<and>
            h \<in> set us) \<and>
         (\<exists>xs ys. calls state_deletion (VrrpVrfDelete env vrfId w) =
            calls state_deletion w @ xs @ [IfName (heap w ra)] @ ys @ [IfName (heap w rb)]) \<and>
         ((\<forall>history. Commit_calls env history = []) \<longrightarrow>
            calls unregistered (VrrpVrfDelete env vrfId w) = calls unregistered w @ [h] \<and>
            processes (VrrpVrfDelete env vrfId w) =
              filter (\<lambda>(h', _). h' \<noteq> h) (processes w) \<and>
            calls state_deletion (VrrpVrfDelete env vrfId w) =
              calls state_deletion w @ [IfName (heap w ra), IfName (heap w rb)])"
proof -
  let ?w1 = "delete_loop env vrfId [Some ra] w"
  let ?w' = "VrrpVrfDelete env vrfId w"
  have w': "?w' = delete_loop env vrfId [Some rb] ?w1"
    using delete_loop_Cons [of env vrfId "Some ra" "[Some rb]" w]
    by (simp only: VrrpVrfDelete_def assms(1))
  note a = delete_round [OF assms(2), where env = env and vrfId = vrfId]
  have rb1: "rb < next_ref ?w1"
    using a(1) assms(3) by linarith
  note b = delete_round [OF rb1, where env = env and vrfId = vrfId]
  have idb: "IfName (heap ?w1 rb) = IfName (heap w rb)" "VrId (heap ?w1 rb) = VrId (heap w rb)"
    using a(2) [OF assms(3)] by simp_all
  have cli: "calls cli_call ?w' =
      calls cli_call w @
      [E_ExecLine (delete_line vrfId (VrId (heap w ra))), E_Commit,
       E_ExecLine (delete_line vrfId (VrId (heap w rb))), E_Commit]"
    by (simp only: w' a(3) b(3) idb append_assoc append_Cons append_Nil)
  obtain xs where xs: "calls state_deletion ?w1 = calls state_deletion w @ xs @ [IfName (heap w ra)]"
    using a(4) by blast
  obtain ys where ys: "calls state_deletion (delete_loop env vrfId [Some rb] ?w1) =
      calls state_deletion ?w1 @ ys @ [IfName (heap ?w1 rb)]"
    using b(4) by blast
  have "calls state_deletion ?w' =
      calls state_deletion w @ xs @ [IfName (heap w ra)] @ ys @ [IfName (heap w rb)]"
    by (simp only: w' ys xs idb append_assoc)
  then have sd: "\<exists>xs ys. calls state_deletion ?w' =
      calls state_deletion w @ xs @ [IfName (heap w ra)] @ ys @ [IfName (heap w rb)]"
    by blast
  have "Process (heap w ra) = Some h \<or> Process (heap w rb) = Some h"
    using assms(4) by blast
  then have un: "\<exists>us. calls unregistered ?w' = calls unregistered w @ us \<and> h \<in> set us"
    unfolding w' by (rule two_rounds_stop [OF assms(2,3)])
  have own: "calls unregistered ?w' = calls unregistered w @ [h] \<and>
      processes ?w' = filter (\<lambda>(h', _). h' \<noteq> h) (processes w) \<and>
      calls state_deletion ?w' =
        calls state_deletion w @ [IfName (heap w ra), IfName (heap w rb)]"
    if quiet: "\<forall>history. Commit_calls env history = []"
  proof -
    have commit: "Commit env v = emit E_Commit v" for v
      using quiet by (simp add: Commit_no_calls)
    from assms(4) have ne: "rb \<noteq> ra" by auto
    have loop: "?w' = delete_loop env vrfId [Some ra, Some rb] w"
      by (simp only: VrrpVrfDelete_def assms(1))
    from assms(4) show ?thesis
      using ne by (auto simp: loop commit Let_def)
  qed
  from cli un sd own show ?thesis by blast
qed

theorem VrrpVrfDelete_two_instances_witness:
  "calls cli_call (VrrpVrfDelete example_env 3 two_instance_world) =
     [E_ExecLine ''delete vrf name vrf3 vrrp 1'', E_Commit,
      E_ExecLine ''delete vrf name vrf3 vrrp 2'', E_Commit] \<and>
   calls unregistered (VrrpVrfDelete example_env 3 two_instance_world) = [0] \<and>
   processes (VrrpVrfDelete example_env 3 two_instance_world) = [] \<and>
   calls state_deletion (VrrpVrfDelete example_env 3 two_instance_world) = [''eth0'', ''eth1''] \<and>
   calls cli_call (VrrpVrfDelete example_env 3 nil_first_world) =
     [E_ExecLine ''delete vrf name vrf3 vrrp 2'', E_Commit,
      E_ExecLine ''delete vrf name vrf3 vrrp 1'', E_Commit] \<and>
   calls unregistered (VrrpVrfDelete example_env 3 nil_first_world) = [0] \<and>
   calls state_deletion (VrrpVrfDelete example_env 3 nil_first_world) = [''eth1'', ''eth0'']"
proof -
  have q: "\<forall>history. Commit_calls example_env history = []"
    by (simp add: example_env_def)
  have s: "refs two_instance_world (''vrf'' @ string_of_int 3) = [Some 0, Some 1]"
    "refs nil_first_world (''vrf'' @ string_of_int 3) = [Some 1, Some 0]"
    by (simp_all add: decimal_examples)
  show ?thesis
    using VrrpVrfDelete_two_instances [OF s(1), where h = 0 and env = example_env]
      VrrpVrfDelete_two_instances [OF s(2), where h = 0 and env = example_env] q
    by (simp add: decimal_examples delete_line_def)
qed

text \<open>
  With a commit subsystem that calls the reconciler: the first commit makes it clear
  both instances and start router 2 anew, the second makes it stop that new process,
  and each time it issues its own state deletions.
\<close>

theorem VrrpVrfDelete_reentrant_counterexample:
  "calls state_deletion (VrrpVrfDelete reentrant_env 3 two_instance_world) =
     [''eth0'', ''eth1'', ''eth0'', ''eth1'', ''eth1''] \<and>
   calls unregistered (VrrpVrfDelete reentrant_env 3 two_instance_world) = [0, 1]"
proof -
  have cc: "Commit_calls reentrant_env = tree_commit"
    by (simp add: reentrant_env_def)
  show ?thesis
    by (simp add: VrrpVrfDelete_def decimal_examples delete_line_def Let_def Commit_def cc
        tree_commit_def VrrpJsonConfig_decoded [OF reentrant_decodes(1,2)]
        VrrpJsonConfig_decoded [OF reentrant_decodes(3,4)] stop_process_heap
        start_instance_def VrrpServerExec_def VrrpServerStart_def case_prod_beta
        eth1_definition_def zero_Vrrp_def)
qed

text \<open>
  C9.  Claim: on a path of fewer than three segments \<open>VrrpJsonConfig\<close> returns without
  error for every document and changes nothing.  The document is decoded before the
  length of the path is looked at, so a document that does not decode returns its
  error on a short path too.  What holds: the world is unchanged, and no error is
  returned exactly when the document decodes.
\<close>

theorem VrrpJsonConfig_short_path:
  assumes "length path < 3"
  shows "snd (VrrpJsonConfig env path str w) = w \<and>
         (fst (VrrpJsonConfig env path str w) = None \<longleftrightarrow>
            (\<exists>j defs. json_Unmarshal env str = Inr j \<and> mapstructure_Decode env j = Inr defs))"
  using assms by (auto simp: VrrpJsonConfig_def split: sum.splits)

theorem VrrpJsonConfig_short_path_witness:
  "snd (VrrpJsonConfig example_env [''vrf'', ''name''] ''[{},{}]'' two_instance_world) =
     two_instance_world \<and>
   fst (VrrpJsonConfig example_env [''vrf'', ''name''] ''[{},{}]'' two_instance_world) = None"
  using VrrpJsonConfig_short_path [of "[''vrf'', ''name'']" example_env "''[{},{}]''"
      two_instance_world]
  by (simp add: example_env_def)

theorem VrrpJsonConfig_short_path_counterexample:
  "fst (VrrpJsonConfig example_env [''vrf'', ''name''] ''{'' two_instance_world) =
     Some (Error ''unexpected end of JSON input'')"
  by (simp add: VrrpJsonConfig_def example_env_def)

text \<open>
  C10.  After a call of \<open>VrrpJsonConfig\<close> that returns no error on a path of three
  segments or more, the document has decoded to a list of definitions and the slot of
  the VRF holds one non-nil instance per definition, in the order of the document, each
  with the interface name and the id of its definition, whatever the outcome of the
  calls that render the configuration and start the daemon.
\<close>

theorem VrrpJsonConfig_registry_slot:
  assumes "fst (VrrpJsonConfig env path str w) = None" and "3 \<le> length path"
  shows "\<exists>j defs. json_Unmarshal env str = Inr j \<and> mapstructure_Decode env j = Inr defs \<and>
           map (map_option (\<lambda>i. (IfName i, VrId i)))
               (slot (snd (VrrpJsonConfig env path str w)) (path ! 2)) =
           map (\<lambda>v. Some (Interface v, Vrid v)) defs"
proof -
  from assms(1) obtain j defs where
    d: "json_Unmarshal env str = Inr j" "mapstructure_Decode env j = Inr defs"
    by (auto simp: VrrpJsonConfig_def split: sum.splits)
  let ?w' = "snd (VrrpJsonConfig env path str w)"
  obtain rs where rs: "slot ?w' (path ! 2) = map (\<lambda>r. Some (heap ?w' r)) rs"
    "map (\<lambda>r. (IfName (heap ?w' r), VrId (heap ?w' r))) rs =
       map (\<lambda>v. (Interface v, Vrid v)) defs"
    using VrrpJsonConfig_slot [OF d assms(2), of w] by blast
  have "map (map_option (\<lambda>i. (IfName i, VrId i))) (slot ?w' (path ! 2)) =
      map Some (map (\<lambda>r. (IfName (heap ?w' r), VrId (heap ?w' r))) rs)"
    by (simp add: rs(1) comp_def)
  also have "\<dots> = map (\<lambda>v. Some (Interface v, Vrid v)) defs"
    by (simp add: rs(2) comp_def)
  finally show ?thesis using d by blast
qed

theorem VrrpJsonConfig_registry_slot_witness:
  "fst (VrrpJsonConfig example_env [''vrf'', ''name'', ''vrf3''] ''[{},{}]''
        (empty_world\<lparr>outcomes := [False, False]\<rparr>)) = None \<and>
   slot (snd (VrrpJsonConfig example_env [''vrf'', ''name'', ''vrf3''] ''[{},{}]''
        (empty_world\<lparr>outcomes := [False, False]\<rparr>))) ''vrf3'' =
     [Some \<lparr>IfName = [], VrId = 0, Process = None\<rparr>,
      Some \<lparr>IfName = [], VrId = 0, Process = None\<rparr>]"
  using VrrpJsonConfig_registry_slot [of example_env "[''vrf'', ''name'', ''vrf3'']" "''[{},{}]''"
      "empty_world\<lparr>outcomes := [False, False]\<rparr>"]
  by (simp add: VrrpJsonConfig_decoded [OF example_decodes(1,2)] run_defs zero_Vrrp_def)

end
